theory Spec2Isabelle
  imports Main "HOL-Library.Word"
begin

section \<open>Python values\<close>

text \<open>
  A Python \<open>str\<close> is modelled by \<open>string\<close>; one \<open>char\<close> stands for one code point, so
  the model speaks about texts over the code points below 256. Slicing and \<open>len\<close> count
  code points, as \<open>take\<close> and \<open>length\<close> count \<open>char\<close>s.

  The values that \<open>json.loads\<close> produces and that \<open>jsonify\<close> consumes: \<open>None\<close>, \<open>bool\<close>,
  \<open>int\<close>, \<open>float\<close>, \<open>str\<close>, \<open>list\<close> and \<open>dict\<close> with \<open>str\<close> keys. A \<open>dict\<close> is an association
  list in insertion order. A \<open>float\<close> is carried as the 64 bits of its IEEE-754 double;
  the program never computes with one.
\<close>

datatype json =
    JNull
  | JBool bool
  | JInt int
  | JFloat "64 word"
  | JStr string
  | JArr "json list"
  | JObj "(string \<times> json) list"

type_synonym dict = "(string \<times> json) list"

text \<open>
  Exceptions are values. Every constructor stands for an instance of a subclass of Python's
  \<open>Exception\<close>, carrying the text that \<open>str(e)\<close> yields. \<open>JSONDecodeError\<close> is the one
  class the program tells apart from the others; \<open>OtherError\<close> is any further exception
  class of an external library (the generation client, the web framework).
\<close>

datatype exn =
    JSONDecodeError string
  | ValueError string
  | TypeError string
  | AttributeError string
  | KeyError string
  | Exception string
  | OtherError string

fun str_exn :: "exn \<Rightarrow> string" where
  "str_exn (JSONDecodeError m) = m"
| "str_exn (ValueError m) = m"
| "str_exn (TypeError m) = m"
| "str_exn (AttributeError m) = m"
| "str_exn (KeyError m) = m"
| "str_exn (Exception m) = m"
| "str_exn (OtherError m) = m"

fun type_name :: "json \<Rightarrow> string" where
  "type_name JNull = ''NoneType''"
| "type_name (JBool b) = ''bool''"
| "type_name (JInt n) = ''int''"
| "type_name (JFloat w) = ''float''"
| "type_name (JStr s) = ''str''"
| "type_name (JArr xs) = ''list''"
| "type_name (JObj kvs) = ''dict''"

text \<open>A name between single quotes, as the interpreter's messages show it.\<close>

definition quoted :: "string \<Rightarrow> string" where
  "quoted s = CHR 0x27 # s @ [CHR 0x27]"

subsection \<open>String operations of the standard library\<close>

text \<open>
  \<open>str.isspace\<close> on one code point below 256: the controls 9 to 13 and 28 to 31, the
  space, NEL (133) and the no-break space (160). \<open>str.strip()\<close> and the class \<open>\s\<close> of
  \<open>re\<close> on a \<open>str\<close> pattern use the same set.
\<close>

definition isspace :: "char \<Rightarrow> bool" where
  "isspace c =
     (let n = (of_char c :: nat)
      in (9 \<le> n \<and> n \<le> 13) \<or> (28 \<le> n \<and> n \<le> 32) \<or> n = 133 \<or> n = 160)"

definition lstrip :: "string \<Rightarrow> string" where
  "lstrip s = dropWhile isspace s"

definition rstrip :: "string \<Rightarrow> string" where
  "rstrip s = rev (dropWhile isspace (rev s))"

definition strip :: "string \<Rightarrow> string" where
  "strip s = rstrip (lstrip s)"

definition startswith :: "string \<Rightarrow> string \<Rightarrow> bool" where
  "startswith s p = (take (length p) s = p)"

text \<open>\<open>sep.join(xs)\<close>.\<close>

fun join :: "string \<Rightarrow> string list \<Rightarrow> string" where
  "join sep [] = []"
| "join sep [x] = x"
| "join sep (x # y # ys) = x @ sep @ join sep (y # ys)"

text \<open>\<open>p in s\<close> for two strings: \<open>p\<close> occurs in \<open>s\<close> as a contiguous piece.\<close>

fun substring :: "string \<Rightarrow> string \<Rightarrow> bool" where
  "substring p [] = (p = [])"
| "substring p (c # cs) = (startswith (c # cs) p \<or> substring p cs)"

subsection \<open>The two substitutions\<close>

text \<open>
  \<^verbatim>\<open>re.sub(r'^```(?:json)?\s*', '', s)\<close>: without the MULTILINE flag \<open>^\<close> matches at
  position 0 only, so there is at most one match. The optional group takes \<open>json\<close>
  when it is there (what follows, \<open>\s*\<close>, never fails, so the engine does not go back on
  it), and \<open>\s*\<close> takes the whole run of whitespace that follows.
\<close>

definition sub_opening_fence :: "string \<Rightarrow> string" where
  "sub_opening_fence s =
     (if startswith s [CHR 0x60, CHR 0x60, CHR 0x60]
      then (let r = drop 3 s;
                r' = (if startswith r ''json'' then drop 4 r else r)
            in dropWhile isspace r')
      else s)"

text \<open>
  \<^verbatim>\<open>re.sub(r'\s*```$', '', s)\<close>: without MULTILINE \<open>$\<close> matches at the end of the
  string and just before a newline that ends the string. A match that starts at a
  position takes the whole whitespace run there (a shorter run would have to be followed
  by a backtick, and is followed by whitespace), then three backticks, and must then stand
  at \<open>$\<close>. \<open>closing_fence_at\<close> answers what is left behind the match, if the match
  exists at the head of its argument; the substitution removes the leftmost match, and
  what is left behind it (nothing, or one newline) holds no further match.
\<close>

definition closing_fence_at :: "string \<Rightarrow> string option" where
  "closing_fence_at s =
     (let r = dropWhile isspace s
      in if startswith r [CHR 0x60, CHR 0x60, CHR 0x60]
            \<and> (drop 3 r = [] \<or> drop 3 r = [CHR 0x0A])
         then Some (drop 3 r) else None)"

fun sub_closing_fence :: "string \<Rightarrow> string" where
  "sub_closing_fence [] = []"
| "sub_closing_fence (c # cs) =
     (case closing_fence_at (c # cs) of
        Some rest \<Rightarrow> rest
      | None \<Rightarrow> c # sub_closing_fence cs)"

text \<open>
  The cleaning that \<open>_parse_response\<close> and \<open>generate_multiple_recipes\<close> both run, with the
  same statements, before \<open>json.loads\<close>; the result is the argument of \<open>json.loads\<close>.
  \<^verbatim>\<open>
  cleaned_text = response_text.strip()
  if cleaned_text.startswith("```"):
      cleaned_text = re.sub(r'^```(?:json)?\s*', '', cleaned_text)
      cleaned_text = re.sub(r'\s*```$', '', cleaned_text)
  ... json.loads(cleaned_text.strip())
  \<close>
\<close>

definition cleaned_text :: "string \<Rightarrow> string" where
  "cleaned_text response_text =
     (let cleaned = strip response_text;
          cleaned = (if startswith cleaned [CHR 0x60, CHR 0x60, CHR 0x60]
                     then sub_closing_fence (sub_opening_fence cleaned)
                     else cleaned)
      in strip cleaned)"

subsection \<open>Operators on values\<close>

text \<open>
  \<open>field in value\<close> for a \<open>str\<close> on the left: key membership on a \<open>dict\<close>, equality with
  an element on a \<open>list\<close>, the substring test on a \<open>str\<close>, and a \<open>TypeError\<close> on the values
  that are no containers (worded as CPython 3.12 words it).
\<close>

fun py_in :: "string \<Rightarrow> json \<Rightarrow> exn + bool" where
  "py_in f (JObj kvs) = Inr (f \<in> set (map fst kvs))"
| "py_in f (JArr xs) = Inr (JStr f \<in> set xs)"
| "py_in f (JStr s) = Inr (substring f s)"
| "py_in f v = Inl (TypeError (''argument of type '' @ quoted (type_name v) @ '' is not iterable''))"

text \<open>\<open>value.get(key, default)\<close>: a \<open>dict\<close> method; any other value has no such attribute.\<close>

fun py_get :: "json \<Rightarrow> string \<Rightarrow> json \<Rightarrow> exn + json" where
  "py_get (JObj kvs) k d = Inr (case map_of kvs k of Some v \<Rightarrow> v | None \<Rightarrow> d)"
| "py_get v k d =
     Inl (AttributeError (quoted (type_name v) @ '' object has no attribute '' @ quoted ''get''))"


text \<open>\<open>str(n)\<close> for an \<open>int\<close>, as an f-string renders it: decimal digits, a minus sign first.\<close>

function digits :: "nat \<Rightarrow> string" where
  "digits n =
     (if n < 10 then [char_of (48 + n)]
      else digits (n div 10) @ [char_of (48 + n mod 10)])"
  by pat_completeness auto
termination
  by (relation "measure id") auto

declare digits.simps [simp del]

definition str_int :: "int \<Rightarrow> string" where
  "str_int i = (if i < 0 then CHR ''-'' # digits (nat (- i)) else digits (nat i))"

text \<open>\<open>d[key]\<close> on a \<open>dict\<close>; \<open>str(KeyError(key))\<close> is the \<open>repr\<close> of the key.\<close>

definition py_getitem :: "dict \<Rightarrow> string \<Rightarrow> exn + json" where
  "py_getitem d k = (case map_of d k of Some v \<Rightarrow> Inr v | None \<Rightarrow> Inl (KeyError (quoted k)))"

text \<open>\<open>len(value)\<close>.\<close>

fun py_len :: "json \<Rightarrow> exn + nat" where
  "py_len (JStr s) = Inr (length s)"
| "py_len (JArr xs) = Inr (length xs)"
| "py_len (JObj kvs) = Inr (length kvs)"
| "py_len v = Inl (TypeError (''object of type '' @ quoted (type_name v) @ '' has no len()''))"

text \<open>The truth value of a value, as \<open>if not data\<close> and \<open>if result["success"]\<close> take it.\<close>

fun truthy :: "json \<Rightarrow> bool" where
  "truthy JNull = False"
| "truthy (JBool b) = b"
| "truthy (JInt n) = (n \<noteq> 0)"
| "truthy (JFloat w) = (w \<noteq> 0 \<and> w \<noteq> 0x8000000000000000)"
| "truthy (JStr s) = (s \<noteq> [])"
| "truthy (JArr xs) = (xs \<noteq> [])"
| "truthy (JObj kvs) = (kvs \<noteq> [])"

section \<open>recipe\_generator.py: class RecipeGenerator\<close>

text \<open>
  The generator holds one external collaborator, \<open>self.model\<close>. A call
  \<open>self.model.generate_content(prompt)\<close> followed by \<open>response.text\<close> is a function from the
  prompt to the text or to the exception raised on the way. \<open>json.loads\<close> is the second
  library call the class makes on data it does not control; it is a function from the
  text to the value or to the exception. Both are parameters of the model.
\<close>

type_synonym generation = "string \<Rightarrow> exn + string"

type_synonym loader = "string \<Rightarrow> exn + json"

subsection \<open>\_build\_prompt\<close>

text \<open>
  The f-string of \<open>_build_prompt\<close> after the interpolated ingredient list, from the newline
  that ends its first line to the newline behind the closing brace of the JSON template.
\<close>

definition recipe_format_text :: string where
  \<open>recipe_format_text =
     ''\<newline>''
     @ ''\<newline>''
     @ ''Instructions:\<newline>''
     @ ''1. Create ONE complete recipe that uses as many of the provided ingredients as possible\<newline>''
     @ ''2. You can suggest common pantry items (salt, pepper, oil, etc.) if needed\<newline>''
     @ ''3. Provide the response in the following JSON format ONLY (no additional text):\<newline>''
     @ ''\<newline>''
     @ ''{\<newline>''
     @ ''  "recipe_name": "Name of the dish",\<newline>''
     @ ''  "description": "Brief description of the dish",\<newline>''
     @ ''  "cuisine_type": "Type of cuisine",\<newline>''
     @ ''  "prep_time": "Preparation time in minutes",\<newline>''
     @ ''  "cook_time": "Cooking time in minutes",\<newline>''
     @ ''  "servings": "Number of servings",\<newline>''
     @ ''  "difficulty": "Easy/Medium/Hard",\<newline>''
     @ ''  "ingredients": [\<newline>''
     @ ''    {"item": "ingredient name", "quantity": "amount", "unit": "measurement unit"}\<newline>''
     @ ''  ],\<newline>''
     @ ''  "instructions": [\<newline>''
     @ ''    "Step 1 instruction",\<newline>''
     @ ''    "Step 2 instruction"\<newline>''
     @ ''  ],\<newline>''
     @ ''  "nutritional_info": {\<newline>''
     @ ''    "calories": "approximate calories per serving",\<newline>''
     @ ''    "protein": "grams",\<newline>''
     @ ''    "carbs": "grams",\<newline>''
     @ ''    "fat": "grams"\<newline>''
     @ ''  },\<newline>''
     @ ''  "tips": [\<newline>''
     @ ''    "Cooking tip 1",\<newline>''
     @ ''    "Cooking tip 2"\<newline>''
     @ ''  ]\<newline>''
     @ ''}\<newline>''\<close>

definition build_prompt :: "string list \<Rightarrow> string option \<Rightarrow> string list option \<Rightarrow> string" where
  "build_prompt ingredients cuisine_type dietary_restrictions =
     (let ingredients_str = join '', '' ingredients;
          prompt = ''You are a professional chef. Create a detailed recipe using the following ingredients: ''
                     @ ingredients_str @ recipe_format_text;
          prompt = (case cuisine_type of
                      None \<Rightarrow> prompt
                    | Some c \<Rightarrow>
                        if c \<noteq> [] then prompt @ ''\<newline>- Prefer '' @ c @ '' cuisine style''
                        else prompt);
          prompt = (case dietary_restrictions of
                      None \<Rightarrow> prompt
                    | Some ds \<Rightarrow>
                        if ds \<noteq> [] \<and> length ds > 0
                        then (let restrictions_str = join '', '' ds
                              in prompt @ ''\<newline>- Follow these dietary restrictions: '' @ restrictions_str)
                        else prompt)
      in prompt @ ''\<newline>\<newline>Provide ONLY the JSON response, no additional text or markdown formatting.'')"

subsection \<open>\_parse\_response\<close>

definition required_fields :: "string list" where
  "required_fields = [''recipe_name'', ''ingredients'', ''instructions'']"

text \<open>
  The loop over \<open>required_fields\<close>: the first field for which \<open>field not in recipe_data\<close>
  holds raises the \<open>ValueError\<close>; the \<open>in\<close> test itself raises on a value that is no
  container.
\<close>

fun validate_required :: "string list \<Rightarrow> json \<Rightarrow> exn + unit" where
  "validate_required [] recipe_data = Inr ()"
| "validate_required (field # fields) recipe_data =
     (case py_in field recipe_data of
        Inl e \<Rightarrow> Inl e
      | Inr present \<Rightarrow>
          if \<not> present then Inl (ValueError (''Missing required field: '' @ field))
          else validate_required fields recipe_data)"

text \<open>The dictionary built in the handler of \<open>json.JSONDecodeError\<close>.\<close>

definition fallback_recipe :: "string \<Rightarrow> json" where
  "fallback_recipe response_text =
     JObj [(''recipe_name'', JStr ''Generated Recipe''),
           (''description'', JStr (take 200 response_text)),
           (''ingredients'', JArr []),
           (''instructions'', JArr [JStr response_text]),
           (''error'', JStr ''Failed to parse structured recipe'')]"

text \<open>The body of the \<open>try\<close> statement of \<open>_parse_response\<close>.\<close>

definition parse_response_body :: "loader \<Rightarrow> string \<Rightarrow> exn + json" where
  "parse_response_body loads response_text =
     (case loads (cleaned_text response_text) of
        Inl e \<Rightarrow> Inl e
      | Inr recipe_data \<Rightarrow>
          (case validate_required required_fields recipe_data of
             Inl e \<Rightarrow> Inl e
           | Inr u \<Rightarrow> Inr recipe_data))"

text \<open>
  The two handlers, in the order of the source: \<open>json.JSONDecodeError\<close> first, then
  \<open>Exception\<close>, which wraps the message and raises again.
\<close>

definition parse_response :: "loader \<Rightarrow> string \<Rightarrow> exn + json" where
  "parse_response loads response_text =
     (case parse_response_body loads response_text of
        Inr recipe_data \<Rightarrow> Inr recipe_data
      | Inl (JSONDecodeError m) \<Rightarrow> Inr (fallback_recipe response_text)
      | Inl e \<Rightarrow> Inl (Exception (''Error parsing recipe: '' @ str_exn e)))"

subsection \<open>generate\_recipe and generate\_multiple\_recipes\<close>

text \<open>
  Both methods are one \<open>try\<close> statement whose handler catches \<open>Exception\<close> and returns the
  failure dictionary. They return a pair: what the method returns or raises, and the
  prompts it has sent to the external generation call, in order.
\<close>

definition failure :: "exn \<Rightarrow> string \<Rightarrow> dict" where
  "failure e message =
     [(''success'', JBool False), (''error'', JStr (str_exn e)), (''message'', JStr message)]"

definition generate_recipe ::
  "generation \<Rightarrow> loader \<Rightarrow> string list \<Rightarrow> string option \<Rightarrow> string list option
     \<Rightarrow> (exn + dict) \<times> string list" where
  "generate_recipe generate_content loads ingredients cuisine_type dietary_restrictions =
     (let prompt = build_prompt ingredients cuisine_type dietary_restrictions;
          body = (case generate_content prompt of
                    Inl e \<Rightarrow> Inl e
                  | Inr response_text \<Rightarrow>
                      (case parse_response loads response_text of
                         Inl e \<Rightarrow> Inl e
                       | Inr recipe_data \<Rightarrow>
                           Inr [(''success'', JBool True), (''recipe'', recipe_data)]))
      in (case body of
            Inr result \<Rightarrow> Inr result
          | Inl e \<Rightarrow> Inr (failure e ''Failed to generate recipe''),
          [prompt]))"

text \<open>The f-string of \<open>generate_multiple_recipes\<close> behind its second interpolation of \<open>count\<close>.\<close>

definition suggestions_format_text :: string where
  \<open>suggestions_format_text =
     '' brief recipe ideas in JSON format:\<newline>''
     @ ''{\<newline>''
     @ ''  "recipes": [\<newline>''
     @ ''    {\<newline>''
     @ ''      "recipe_name": "Name",\<newline>''
     @ ''      "description": "Brief description",\<newline>''
     @ ''      "cuisine_type": "Type",\<newline>''
     @ ''      "difficulty": "Easy/Medium/Hard",\<newline>''
     @ ''      "estimated_time": "Total time in minutes"\<newline>''
     @ ''    }\<newline>''
     @ ''  ]\<newline>''
     @ ''}\<newline>''
     @ ''\<newline>''
     @ ''Provide ONLY the JSON response.''\<close>

definition suggestions_prompt :: "string list \<Rightarrow> int \<Rightarrow> string" where
  "suggestions_prompt ingredients count =
     ''You are a professional chef. Suggest '' @ str_int count
       @ '' different recipes using these ingredients: '' @ join '', '' ingredients
       @ ''\<newline>\<newline>Provide '' @ str_int count @ suggestions_format_text"

definition generate_multiple_recipes ::
  "generation \<Rightarrow> loader \<Rightarrow> string list \<Rightarrow> int \<Rightarrow> (exn + dict) \<times> string list" where
  "generate_multiple_recipes generate_content loads ingredients count =
     (let prompt = suggestions_prompt ingredients count;
          body = (case generate_content prompt of
                    Inl e \<Rightarrow> Inl e
                  | Inr response_text \<Rightarrow>
                      (case loads (cleaned_text response_text) of
                         Inl e \<Rightarrow> Inl e
                       | Inr recipes_data \<Rightarrow>
                           (case py_get recipes_data ''recipes'' (JArr []) of
                              Inl e \<Rightarrow> Inl e
                            | Inr recipes \<Rightarrow>
                                Inr [(''success'', JBool True), (''recipes'', recipes)])))
      in (case body of
            Inr result \<Rightarrow> Inr result
          | Inl e \<Rightarrow> Inr (failure e ''Failed to generate recipe suggestions''),
          [prompt]))"


section \<open>config.py and app.py\<close>

text \<open>
  \<open>Config.MAX_INGREDIENTS = int(os.getenv('MAX_INGREDIENTS', 20))\<close>: the argument is the
  integer that the environment variable holds, if it is set.
\<close>

definition MAX_INGREDIENTS :: "int option \<Rightarrow> int" where
  "MAX_INGREDIENTS env = (case env of None \<Rightarrow> 20 | Some n \<Rightarrow> n)"

subsection \<open>The request models\<close>

text \<open>
  The two pydantic models, by the constraints their declarations give: which fields are
  required, which type each has, the bounds of \<open>Field\<close> and the defaults. A validation
  answers the model instance or the list that \<open>e.errors()\<close> returns; of each entry of
  that list the model keeps the location and the error type. Keys of the request that
  name no field are ignored.
\<close>

record RecipeRequest =
  rr_ingredients :: "string list"
  rr_cuisine_type :: "string option"
  rr_dietary_restrictions :: "string list option"

record MultipleRecipesRequest =
  mr_ingredients :: "string list"
  mr_count :: int

type_synonym error_detail = "json list \<times> string"

fun errors_of :: "error_detail list + 'a \<Rightarrow> error_detail list" where
  "errors_of (Inl es) = es"
| "errors_of (Inr x) = []"

fun is_str :: "json \<Rightarrow> bool" where
  "is_str (JStr s) = True"
| "is_str v = False"

fun str_value :: "json \<Rightarrow> string" where
  "str_value (JStr s) = s"
| "str_value v = []"

text \<open>\<open>List[str]\<close>: a list all of whose elements are strings.\<close>

definition validate_str_list :: "string \<Rightarrow> json \<Rightarrow> error_detail list + string list" where
  "validate_str_list field v =
     (case v of
        JArr xs \<Rightarrow>
          (let bad = filter (\<lambda>i. \<not> is_str (xs ! i)) [0..<length xs]
           in if bad \<noteq> []
              then Inl (map (\<lambda>i. ([JStr field, JInt (int i)], ''string_type'')) bad)
              else Inr (map str_value xs))
      | _ \<Rightarrow> Inl [([JStr field], ''list_type'')])"

text \<open>
  \<open>ingredients: List[str] = Field(..., min_length=1, max_length=Config.MAX_INGREDIENTS)\<close>,
  the same declaration in both models. A value that is no list is a \<open>list_type\<close> error. Of
  a list, the length is judged first (a list over the bound is reported as \<open>too_long\<close> and
  nothing else), then the items.
\<close>

definition validate_ingredients :: "int \<Rightarrow> dict \<Rightarrow> error_detail list + string list" where
  "validate_ingredients max_length data =
     (case map_of data ''ingredients'' of
        None \<Rightarrow> Inl [([JStr ''ingredients''], ''missing'')]
      | Some v \<Rightarrow>
          (case v of
             JArr items \<Rightarrow>
               if length items < 1 then Inl [([JStr ''ingredients''], ''too_short'')]
               else if int (length items) > max_length
               then Inl [([JStr ''ingredients''], ''too_long'')]
               else validate_str_list ''ingredients'' v
           | _ \<Rightarrow> validate_str_list ''ingredients'' v))"

text \<open>\<open>cuisine_type: Optional[str] = None\<close>.\<close>

definition validate_cuisine_type :: "dict \<Rightarrow> error_detail list + string option" where
  "validate_cuisine_type data =
     (case map_of data ''cuisine_type'' of
        None \<Rightarrow> Inr None
      | Some JNull \<Rightarrow> Inr None
      | Some (JStr s) \<Rightarrow> Inr (Some s)
      | Some _ \<Rightarrow> Inl [([JStr ''cuisine_type''], ''string_type'')])"

text \<open>\<open>dietary_restrictions: Optional[List[str]] = []\<close>.\<close>

definition validate_dietary_restrictions :: "dict \<Rightarrow> error_detail list + string list option" where
  "validate_dietary_restrictions data =
     (case map_of data ''dietary_restrictions'' of
        None \<Rightarrow> Inr (Some [])
      | Some JNull \<Rightarrow> Inr None
      | Some v \<Rightarrow>
          (case validate_str_list ''dietary_restrictions'' v of
             Inl es \<Rightarrow> Inl es
           | Inr xs \<Rightarrow> Inr (Some xs)))"

text \<open>
  \<open>count: int = Field(default=3, ge=1, le=5)\<close>. Which inputs pydantic converts to an \<open>int\<close>
  (and to which one) is the library's matter: \<open>lax_int\<close> is that conversion, a parameter.
  A value it does not convert is recorded under the one label \<open>int_type\<close>, whichever of its
  finer labels the library gives the failure.
\<close>

definition validate_count :: "(json \<Rightarrow> int option) \<Rightarrow> dict \<Rightarrow> error_detail list + int" where
  "validate_count lax_int data =
     (case map_of data ''count'' of
        None \<Rightarrow> Inr 3
      | Some v \<Rightarrow>
          (case lax_int v of
             None \<Rightarrow> Inl [([JStr ''count''], ''int_type'')]
           | Some n \<Rightarrow>
               if n < 1 then Inl [([JStr ''count''], ''greater_than_equal'')]
               else if n > 5 then Inl [([JStr ''count''], ''less_than_equal'')]
               else Inr n))"

definition RecipeRequest_validate :: "int \<Rightarrow> dict \<Rightarrow> error_detail list + RecipeRequest" where
  "RecipeRequest_validate max_length data =
     (case (validate_ingredients max_length data, validate_cuisine_type data,
            validate_dietary_restrictions data) of
        (Inr i, Inr c, Inr d) \<Rightarrow>
          Inr \<lparr>rr_ingredients = i, rr_cuisine_type = c, rr_dietary_restrictions = d\<rparr>
      | (i, c, d) \<Rightarrow> Inl (errors_of i @ errors_of c @ errors_of d))"

definition MultipleRecipesRequest_validate ::
  "int \<Rightarrow> (json \<Rightarrow> int option) \<Rightarrow> dict \<Rightarrow> error_detail list + MultipleRecipesRequest" where
  "MultipleRecipesRequest_validate max_length lax_int data =
     (case (validate_ingredients max_length data, validate_count lax_int data) of
        (Inr i, Inr c) \<Rightarrow> Inr \<lparr>mr_ingredients = i, mr_count = c\<rparr>
      | (i, c) \<Rightarrow> Inl (errors_of i @ errors_of c))"

subsection \<open>The two POST views\<close>

record http_response =
  status :: nat
  body :: json

definition no_data_response :: http_response where
  "no_data_response =
     \<lparr>status = 400,
      body = JObj [(''success'', JBool False), (''error'', JStr ''No data provided'')]\<rparr>"

definition error_detail_json :: "error_detail \<Rightarrow> json" where
  "error_detail_json d = JObj [(''type'', JStr (snd d)), (''loc'', JArr (fst d))]"

definition validation_error_response :: "error_detail list \<Rightarrow> http_response" where
  "validation_error_response es =
     \<lparr>status = 400,
      body = JObj [(''success'', JBool False), (''error'', JStr ''Validation error''),
                   (''details'', JArr (map error_detail_json es))]\<rparr>"

definition internal_error_response :: "exn \<Rightarrow> http_response" where
  "internal_error_response e =
     \<lparr>status = 500,
      body = JObj [(''success'', JBool False), (''error'', JStr ''Internal server error''),
                   (''message'', JStr (str_exn e))]\<rparr>"

text \<open>
  \<open>Model(**data)\<close> on a value that is no mapping raises a \<open>TypeError\<close> before pydantic
  runs (worded as CPython 3.12 words it for the module run as a script).
\<close>

definition not_a_mapping :: "string \<Rightarrow> json \<Rightarrow> exn" where
  "not_a_mapping cls data =
     TypeError (''__main__.'' @ cls @ ''() argument after ** must be a mapping, not ''
                  @ type_name data)"

text \<open>
  A view is one \<open>try\<close> statement; \<open>get_json\<close> is what \<open>request.get_json()\<close> returns or
  raises for the request at hand. The body of the \<open>try\<close> answers the response or the
  exception that leaves it, and the prompts sent to the generation call so far. The
  arguments of the logging calls are evaluated, since they can raise; what is logged is
  not part of the model.
\<close>

definition generate_recipe_view_body ::
  "(exn + json) \<Rightarrow> generation \<Rightarrow> loader \<Rightarrow> int \<Rightarrow> (exn + http_response) \<times> string list" where
  "generate_recipe_view_body get_json generate_content loads max_ingredients =
     (case get_json of
        Inl e \<Rightarrow> (Inl e, [])
      | Inr data \<Rightarrow>
          if \<not> truthy data then (Inr no_data_response, [])
          else
            (case data of
               JObj kvs \<Rightarrow>
                 (case RecipeRequest_validate max_ingredients kvs of
                    Inl es \<Rightarrow> (Inr (validation_error_response es), [])
                  | Inr recipe_request \<Rightarrow>
                      (case generate_recipe generate_content loads
                              (rr_ingredients recipe_request) (rr_cuisine_type recipe_request)
                              (rr_dietary_restrictions recipe_request) of
                         (Inl e, calls) \<Rightarrow> (Inl e, calls)
                       | (Inr result, calls) \<Rightarrow>
                           (case py_getitem result ''success'' of
                              Inl e \<Rightarrow> (Inl e, calls)
                            | Inr success \<Rightarrow>
                                if truthy success
                                then (case py_getitem result ''recipe'' of
                                        Inl e \<Rightarrow> (Inl e, calls)
                                      | Inr recipe \<Rightarrow>
                                          (case py_get recipe ''recipe_name'' (JStr ''Unknown'') of
                                             Inl e \<Rightarrow> (Inl e, calls)
                                           | Inr name \<Rightarrow>
                                               (Inr \<lparr>status = 200, body = JObj result\<rparr>, calls)))
                                else (Inr \<lparr>status = 500, body = JObj result\<rparr>, calls))))
             | _ \<Rightarrow> (Inl (not_a_mapping ''RecipeRequest'' data), [])))"

definition app_generate_recipe ::
  "(exn + json) \<Rightarrow> generation \<Rightarrow> loader \<Rightarrow> int \<Rightarrow> http_response \<times> string list" where
  "app_generate_recipe get_json generate_content loads max_ingredients =
     (case generate_recipe_view_body get_json generate_content loads max_ingredients of
        (Inr response, calls) \<Rightarrow> (response, calls)
      | (Inl e, calls) \<Rightarrow> (internal_error_response e, calls))"

definition suggest_recipes_view_body ::
  "(exn + json) \<Rightarrow> generation \<Rightarrow> loader \<Rightarrow> int \<Rightarrow> (json \<Rightarrow> int option)
     \<Rightarrow> (exn + http_response) \<times> string list" where
  "suggest_recipes_view_body get_json generate_content loads max_ingredients lax_int =
     (case get_json of
        Inl e \<Rightarrow> (Inl e, [])
      | Inr data \<Rightarrow>
          if \<not> truthy data then (Inr no_data_response, [])
          else
            (case data of
               JObj kvs \<Rightarrow>
                 (case MultipleRecipesRequest_validate max_ingredients lax_int kvs of
                    Inl es \<Rightarrow> (Inr (validation_error_response es), [])
                  | Inr recipes_request \<Rightarrow>
                      (case generate_multiple_recipes generate_content loads
                              (mr_ingredients recipes_request) (mr_count recipes_request) of
                         (Inl e, calls) \<Rightarrow> (Inl e, calls)
                       | (Inr result, calls) \<Rightarrow>
                           (case py_getitem result ''success'' of
                              Inl e \<Rightarrow> (Inl e, calls)
                            | Inr success \<Rightarrow>
                                if truthy success
                                then (case py_get (JObj result) ''recipes'' (JArr []) of
                                        Inl e \<Rightarrow> (Inl e, calls)
                                      | Inr recipes \<Rightarrow>
                                          (case py_len recipes of
                                             Inl e \<Rightarrow> (Inl e, calls)
                                           | Inr n \<Rightarrow>
                                               (Inr \<lparr>status = 200, body = JObj result\<rparr>, calls)))
                                else (Inr \<lparr>status = 500, body = JObj result\<rparr>, calls))))
             | _ \<Rightarrow> (Inl (not_a_mapping ''MultipleRecipesRequest'' data), [])))"

definition app_suggest_recipes ::
  "(exn + json) \<Rightarrow> generation \<Rightarrow> loader \<Rightarrow> int \<Rightarrow> (json \<Rightarrow> int option)
     \<Rightarrow> http_response \<times> string list" where
  "app_suggest_recipes get_json generate_content loads max_ingredients lax_int =
     (case suggest_recipes_view_body get_json generate_content loads max_ingredients lax_int of
        (Inr response, calls) \<Rightarrow> (response, calls)
      | (Inl e, calls) \<Rightarrow> (internal_error_response e, calls))"


section \<open>Instances of the external parameters\<close>

text \<open>
  The theorems below hold for every generation call and every loader. To run them on
  concrete inputs the parameters are instantiated: a generation call that replies a fixed
  text or raises a fixed exception, a conversion that reads a JSON integer as itself, and
  \<open>json_loads\<close>, a recursive-descent loader for a fragment of JSON: no fractions, no
  exponents, no \<open>NaN\<close> or \<open>Infinity\<close>, and of the escapes \<open>\uXXXX\<close> those for the code points
  of the model. Outside the fragment it answers a \<open>JSONDecodeError\<close> where \<open>json.loads\<close>
  returns a value, and its messages name the kind of error without the position. As
  \<open>json.loads\<close> does, it skips the four JSON whitespace characters around tokens, keeps the
  last value of a repeated key at the key's first position, and rejects raw control
  characters inside strings. The conversion \<open>json_int\<close> likewise is one instance, narrower
  than the library's: it converts JSON integers and nothing else. \<open>json_dumps\<close> is the serializer that goes with it, \<open>json.dumps\<close> with its default
  separators and ASCII escapes; how a \<open>float\<close> is printed is left to a parameter.
\<close>

text \<open>A text between an opening fence line, tagged or bare, and a closing fence line.\<close>

definition fenced :: "string \<Rightarrow> string \<Rightarrow> string" where
  "fenced tag text =
     [CHR 0x60, CHR 0x60, CHR 0x60] @ tag @ [CHR 0x0A] @ text
       @ [CHR 0x0A, CHR 0x60, CHR 0x60, CHR 0x60]"

definition replies :: "string \<Rightarrow> generation" where
  "replies response_text prompt = Inr response_text"

definition raises :: "exn \<Rightarrow> generation" where
  "raises e prompt = Inl e"

fun json_int :: "json \<Rightarrow> int option" where
  "json_int (JInt n) = Some n"
| "json_int v = None"

definition json_space :: "char \<Rightarrow> bool" where
  "json_space c = (c = CHR '' '' \<or> c = CHR 0x09 \<or> c = CHR 0x0A \<or> c = CHR 0x0D)"

definition skip_space :: "string \<Rightarrow> string" where
  "skip_space s = dropWhile json_space s"

definition unescape :: "char \<Rightarrow> char option" where
  "unescape c =
     (if c = CHR 0x22 then Some (CHR 0x22)
      else if c = CHR 0x5C then Some (CHR 0x5C)
      else if c = CHR ''/'' then Some (CHR ''/'')
      else if c = CHR ''b'' then Some (CHR 0x08)
      else if c = CHR ''f'' then Some (CHR 0x0C)
      else if c = CHR ''n'' then Some (CHR 0x0A)
      else if c = CHR ''r'' then Some (CHR 0x0D)
      else if c = CHR ''t'' then Some (CHR 0x09)
      else None)"

text \<open>The escape \<open>\uXXXX\<close>: four hexadecimal digits, for a code point of the model.\<close>

definition hex_value :: "char \<Rightarrow> nat option" where
  "hex_value c =
     (let n = (of_char c :: nat)
      in if 48 \<le> n \<and> n \<le> 57 then Some (n - 48)
         else if 97 \<le> n \<and> n \<le> 102 then Some (n - 87)
         else if 65 \<le> n \<and> n \<le> 70 then Some (n - 55)
         else None)"

definition hex4 :: "char \<Rightarrow> char \<Rightarrow> char \<Rightarrow> char \<Rightarrow> char option" where
  "hex4 a b c d =
     (case (hex_value a, hex_value b, hex_value c, hex_value d) of
        (Some x, Some y, Some z, Some w) \<Rightarrow>
          (let n = ((x * 16 + y) * 16 + z) * 16 + w
           in if n < 256 then Some (char_of n) else None)
      | _ \<Rightarrow> None)"

definition cons_char :: "char \<Rightarrow> (string \<times> string) option \<Rightarrow> (string \<times> string) option" where
  "cons_char x res = (case res of None \<Rightarrow> None | Some (s, r) \<Rightarrow> Some (x # s, r))"

text \<open>The characters of a string behind its opening quote, and the text behind its closing quote.\<close>

fun read_string :: "string \<Rightarrow> (string \<times> string) option" where
  "read_string [] = None"
| "read_string (c # cs) =
     (if c = CHR 0x22 then Some ([], cs)
      else if c = CHR 0x5C
      then (case cs of
              [] \<Rightarrow> None
            | e # r \<Rightarrow>
                if e = CHR ''u''
                then (case r of
                        a # b # c # d # r' \<Rightarrow>
                          (case hex4 a b c d of
                             None \<Rightarrow> None
                           | Some x \<Rightarrow> cons_char x (read_string r'))
                      | _ \<Rightarrow> None)
                else (case unescape e of
                        None \<Rightarrow> None
                      | Some x \<Rightarrow> cons_char x (read_string r)))
      else if (of_char c :: nat) < 32 then None
      else cons_char c (read_string cs))"

definition is_digit :: "char \<Rightarrow> bool" where
  "is_digit c = (48 \<le> (of_char c :: nat) \<and> (of_char c :: nat) \<le> 57)"

definition digits_value :: "string \<Rightarrow> int" where
  "digits_value ds = foldl (\<lambda>a c. 10 * a + (int (of_char c) - 48)) 0 ds"

definition read_nat :: "string \<Rightarrow> (int \<times> string) option" where
  "read_nat s =
     (case s of
        [] \<Rightarrow> None
      | c # cs \<Rightarrow>
          if c = CHR ''0'' then Some (0, cs)
          else if is_digit c then Some (digits_value (takeWhile is_digit s), dropWhile is_digit s)
          else None)"

definition read_int :: "string \<Rightarrow> (int \<times> string) option" where
  "read_int s =
     (case (case s of
              [] \<Rightarrow> None
            | c # cs \<Rightarrow>
                if c = CHR ''-''
                then (case read_nat cs of None \<Rightarrow> None | Some (n, r) \<Rightarrow> Some (- n, r))
                else read_nat s) of
        None \<Rightarrow> None
      | Some (n, r) \<Rightarrow>
          if r \<noteq> [] \<and> (hd r = CHR ''.'' \<or> hd r = CHR ''e'' \<or> hd r = CHR ''E'') then None
          else Some (n, r))"

text \<open>\<open>d[k] = v\<close> on a \<open>dict\<close>: a key that is there keeps its position.\<close>

fun dict_set :: "dict \<Rightarrow> string \<Rightarrow> json \<Rightarrow> dict" where
  "dict_set [] k v = [(k, v)]"
| "dict_set (p # ps) k v = (if fst p = k then (k, v) # ps else p # dict_set ps k v)"

text \<open>
  The first argument bounds the number of nested and chained calls; \<open>json_loads\<close> starts
  with a bound that no text of its length can use up.
\<close>

fun read_value :: "nat \<Rightarrow> string \<Rightarrow> (json \<times> string) option"
  and read_elements :: "nat \<Rightarrow> json list \<Rightarrow> string \<Rightarrow> (json list \<times> string) option"
  and read_members :: "nat \<Rightarrow> dict \<Rightarrow> string \<Rightarrow> (dict \<times> string) option" where
  "read_value 0 s = None"
| "read_value (Suc n) s =
     (case s of
        [] \<Rightarrow> None
      | c # cs \<Rightarrow>
          if c = CHR ''{''
          then (if startswith (skip_space cs) ''}'' then Some (JObj [], drop 1 (skip_space cs))
                else (case read_members n [] (skip_space cs) of
                        None \<Rightarrow> None
                      | Some (kvs, r) \<Rightarrow> Some (JObj kvs, r)))
          else if c = CHR ''[''
          then (if startswith (skip_space cs) '']'' then Some (JArr [], drop 1 (skip_space cs))
                else (case read_elements n [] (skip_space cs) of
                        None \<Rightarrow> None
                      | Some (xs, r) \<Rightarrow> Some (JArr xs, r)))
          else if c = CHR 0x22
          then (case read_string cs of None \<Rightarrow> None | Some (x, r) \<Rightarrow> Some (JStr x, r))
          else if startswith s ''true'' then Some (JBool True, drop 4 s)
          else if startswith s ''false'' then Some (JBool False, drop 5 s)
          else if startswith s ''null'' then Some (JNull, drop 4 s)
          else (case read_int s of None \<Rightarrow> None | Some (i, r) \<Rightarrow> Some (JInt i, r)))"
| "read_elements 0 acc s = None"
| "read_elements (Suc n) acc s =
     (case read_value n s of
        None \<Rightarrow> None
      | Some (v, r) \<Rightarrow>
          if startswith (skip_space r) '','' 
          then read_elements n (acc @ [v]) (skip_space (drop 1 (skip_space r)))
          else if startswith (skip_space r) '']'' then Some (acc @ [v], drop 1 (skip_space r))
          else None)"
| "read_members 0 acc s = None"
| "read_members (Suc n) acc s =
     (if startswith s [CHR 0x22]
      then (case read_string (drop 1 s) of
              None \<Rightarrow> None
            | Some (k, r) \<Rightarrow>
                if startswith (skip_space r) '':''
                then (case read_value n (skip_space (drop 1 (skip_space r))) of
                        None \<Rightarrow> None
                      | Some (v, r') \<Rightarrow>
                          if startswith (skip_space r') '',''
                          then read_members n (dict_set acc k v) (skip_space (drop 1 (skip_space r')))
                          else if startswith (skip_space r') ''}''
                          then Some (dict_set acc k v, drop 1 (skip_space r'))
                          else None)
                else None)
      else None)"

definition json_loads :: loader where
  "json_loads s =
     (case read_value (2 * length s + 2) (skip_space s) of
        None \<Rightarrow> Inl (JSONDecodeError ''Expecting value'')
      | Some (v, r) \<Rightarrow>
          if skip_space r = [] then Inr v else Inl (JSONDecodeError ''Extra data''))"

text \<open>
  \<open>json.dumps\<close>: inside a string, the quote, the backslash and the five named controls
  are escaped by a backslash and one character, every other code point outside the
  printable ASCII range by \<open>\u\<close> and four lower-case hexadecimal digits.
\<close>

definition hex_digit :: "nat \<Rightarrow> char" where
  "hex_digit d = (if d < 10 then char_of (48 + d) else char_of (87 + d))"

definition escape_char :: "char \<Rightarrow> string" where
  "escape_char c =
     (if c = CHR 0x22 then [CHR 0x5C, CHR 0x22]
      else if c = CHR 0x5C then [CHR 0x5C, CHR 0x5C]
      else if c = CHR 0x0A then [CHR 0x5C, CHR ''n'']
      else if c = CHR 0x0D then [CHR 0x5C, CHR ''r'']
      else if c = CHR 0x09 then [CHR 0x5C, CHR ''t'']
      else if c = CHR 0x0C then [CHR 0x5C, CHR ''f'']
      else if c = CHR 0x08 then [CHR 0x5C, CHR ''b'']
      else if 32 \<le> (of_char c :: nat) \<and> (of_char c :: nat) \<le> 126 then [c]
      else [CHR 0x5C, CHR ''u'', CHR ''0'', CHR ''0'',
            hex_digit ((of_char c :: nat) div 16), hex_digit ((of_char c :: nat) mod 16)])"

definition dumps_str :: "string \<Rightarrow> string" where
  "dumps_str s = CHR 0x22 # concat (map escape_char s) @ [CHR 0x22]"

fun json_dumps :: "(64 word \<Rightarrow> string) \<Rightarrow> json \<Rightarrow> string" where
  "json_dumps float_repr JNull = ''null''"
| "json_dumps float_repr (JBool b) = (if b then ''true'' else ''false'')"
| "json_dumps float_repr (JInt i) = str_int i"
| "json_dumps float_repr (JFloat w) = float_repr w"
| "json_dumps float_repr (JStr s) = dumps_str s"
| "json_dumps float_repr (JArr xs) =
     ''['' @ join '', '' (map (json_dumps float_repr) xs) @ '']''"
| "json_dumps float_repr (JObj kvs) =
     ''{'' @ join '', ''
              (map (\<lambda>p. dumps_str (fst p) @ '': '' @ json_dumps float_repr (snd p)) kvs)
       @ ''}''"

text \<open>
  The values of the fragment: no \<open>float\<close> inside, and the keys of every \<open>dict\<close> pairwise
  distinct, as the keys of a Python \<open>dict\<close> are.
\<close>

fun in_fragment :: "json \<Rightarrow> bool" where
  "in_fragment (JFloat w) = False"
| "in_fragment (JArr xs) = (\<forall>x\<in>set xs. in_fragment x)"
| "in_fragment (JObj kvs) = (distinct (map fst kvs) \<and> (\<forall>p\<in>set kvs. in_fragment (snd p)))"
| "in_fragment v = True"

subsection \<open>Notions for the round trip through the serializer and the loader\<close>

text \<open>
  The bound on nested and chained calls that suffices to read a value back; what may
  follow a serialized value inside a serialized text; and one member of a serialized
  \<open>dict\<close>. A \<open>float\<close> is outside the fragment, so any way of printing it serves.
\<close>

definition follows :: "string \<Rightarrow> bool" where
  "follows rest = (rest = [] \<or> hd rest = CHR '','' \<or> hd rest = CHR '']'' \<or> hd rest = CHR ''}'')"

fun fuel_for :: "json \<Rightarrow> nat" where
  "fuel_for (JArr xs) = Suc (sum_list (map (\<lambda>x. Suc (fuel_for x)) xs))"
| "fuel_for (JObj kvs) = Suc (sum_list (map (\<lambda>p. Suc (fuel_for (snd p))) kvs))"
| "fuel_for v = Suc 0"

text \<open>A serialized value begins with a character that is no whitespace and closes nothing.\<close>

definition opens :: "string \<Rightarrow> bool" where
  "opens s = (s \<noteq> [] \<and> \<not> json_space (hd s) \<and> hd s \<noteq> CHR '']'' \<and> hd s \<noteq> CHR ''}'')"

definition dumps_member :: "(64 word \<Rightarrow> string) \<Rightarrow> string \<times> json \<Rightarrow> string" where
  "dumps_member fr p = dumps_str (fst p) @ '': '' @ json_dumps fr (snd p)"

definition any_float_repr :: "64 word \<Rightarrow> string" where
  "any_float_repr w = []"

subsection \<open>Sample inputs\<close>

text \<open>Response texts and request bodies on which the theorems are run.\<close>

definition summary_without_recipes :: string where
  \<open>summary_without_recipes = ''{"suggestions": [{"recipe_name": "Omelette"}]}''\<close>

definition field_names_list :: string where
  \<open>field_names_list = ''["recipe_name", "ingredients", "instructions"]''\<close>

text \<open>
  What \<open>request.get_json()\<close> does for a POST that carries no body, and so no JSON content
  type, in Flask 2.1 and later: it raises werkzeug's \<open>UnsupportedMediaType\<close>, an
  \<open>Exception\<close> whose text is the one below.
\<close>

definition unsupported_media_type :: exn where
  "unsupported_media_type =
     OtherError (''415 Unsupported Media Type: Did not attempt to load JSON data because the request Content-Type was not ''
                   @ quoted ''application/json'' @ ''.'')"

definition get_json_without_body :: "exn + json" where
  "get_json_without_body = Inl unsupported_media_type"

definition toast_recipe_text :: string where
  \<open>toast_recipe_text =
     ''{"recipe_name": "Toast", "servings": 2, "ingredients": [{"item": "bread", "quantity": "2", "unit": "slices"}], "instructions": ["Toast the bread."], "tips": ["Serve ```hot```"], "notes": {"vegan": true, "source": null}}''\<close>

definition toast_recipe :: dict where
  "toast_recipe =
     [(''recipe_name'', JStr ''Toast''),
      (''servings'', JInt 2),
      (''ingredients'',
       JArr [JObj [(''item'', JStr ''bread''), (''quantity'', JStr ''2''), (''unit'', JStr ''slices'')]]),
      (''instructions'', JArr [JStr ''Toast the bread.'']),
      (''tips'', JArr [JStr [CHR ''S'', CHR ''e'', CHR ''r'', CHR ''v'', CHR ''e'', CHR '' '',
                             CHR 0x60, CHR 0x60, CHR 0x60, CHR ''h'', CHR ''o'', CHR ''t'',
                             CHR 0x60, CHR 0x60, CHR 0x60]]),
      (''notes'', JObj [(''vegan'', JBool True), (''source'', JNull)])]"

definition egg_count_7 :: dict where
  "egg_count_7 = [(''ingredients'', JArr (map JStr [''egg''])), (''count'', JInt 7)]"

definition no_ingredients :: dict where
  "no_ingredients = [(''ingredients'', JArr (map JStr []))]"

definition too_many_ingredients :: dict where
  "too_many_ingredients = [(''ingredients'', JArr (map JStr (replicate 21 ''egg'')))]"

definition egg_blank_rice :: dict where
  "egg_blank_rice = [(''ingredients'', JArr (map JStr [''egg'', [], ''rice'']))]"

section \<open>Properties of the cleaning\<close>

subsection \<open>strip\<close>

lemma isspace_backtick [simp]: "\<not> isspace (CHR 0x60)"
  by (simp add: isspace_def)

lemma isspace_newline [simp]: "isspace (CHR 0x0A)"
  by (simp add: isspace_def)

lemma rstrip_decomp: "\<exists>w. (\<forall>c\<in>set w. isspace c) \<and> s = rstrip s @ w"
proof -
  have "rev s = takeWhile isspace (rev s) @ dropWhile isspace (rev s)" by simp
  then have "s = rev (dropWhile isspace (rev s)) @ rev (takeWhile isspace (rev s))"
    by (metis rev_append rev_rev_ident)
  moreover have "\<forall>c\<in>set (rev (takeWhile isspace (rev s))). isspace c"
    by (auto dest: set_takeWhileD)
  ultimately show ?thesis unfolding rstrip_def by blast
qed

lemma rstrip_last: "rstrip s \<noteq> [] \<Longrightarrow> \<not> isspace (last (rstrip s))"
  unfolding rstrip_def
  by (metis hd_dropWhile last_rev rev_is_Nil_conv)

lemma lstrip_hd: "lstrip s \<noteq> [] \<Longrightarrow> \<not> isspace (hd (lstrip s))"
  unfolding lstrip_def by (rule hd_dropWhile)

lemma rstrip_hd: "rstrip s \<noteq> [] \<Longrightarrow> hd (rstrip s) = hd s"
  using rstrip_decomp[of s] by (metis hd_append2)

lemma strip_hd: "strip s \<noteq> [] \<Longrightarrow> \<not> isspace (hd (strip s))"
  unfolding strip_def
  by (metis lstrip_hd rstrip_hd rstrip_def rev.simps(1) dropWhile.simps(1))

lemma strip_last: "strip s \<noteq> [] \<Longrightarrow> \<not> isspace (last (strip s))"
  unfolding strip_def by (rule rstrip_last)

lemma lstrip_id: "s = [] \<or> \<not> isspace (hd s) \<Longrightarrow> lstrip s = s"
  unfolding lstrip_def by (cases s) auto

lemma rstrip_id: "s = [] \<or> \<not> isspace (last s) \<Longrightarrow> rstrip s = s"
  unfolding rstrip_def by (cases "rev s") (auto simp: last_rev[symmetric] simp del: last_rev)

lemma strip_id: "s = [] \<or> (\<not> isspace (hd s) \<and> \<not> isspace (last s)) \<Longrightarrow> strip s = s"
  unfolding strip_def using lstrip_id rstrip_id by metis

lemma strip_strip: "strip (strip s) = strip s"
  using strip_id strip_hd strip_last by blast

subsection \<open>The fence substitutions\<close>

lemma closing_fence_at_Some:
  assumes "closing_fence_at x = Some r"
  shows "\<exists>ws. (\<forall>c\<in>set ws. isspace c) \<and> x = ws @ [CHR 0x60, CHR 0x60, CHR 0x60] @ r \<and> (r = [] \<or> r = [CHR 0x0A])"
proof -
  let ?d = "dropWhile isspace x"
  from assms have st: "startswith ?d [CHR 0x60, CHR 0x60, CHR 0x60]"
    and r: "r = drop 3 ?d" and rr: "r = [] \<or> r = [CHR 0x0A]"
    by (auto simp: closing_fence_at_def Let_def split: if_splits)
  from st have "take 3 ?d = [CHR 0x60, CHR 0x60, CHR 0x60]"
    by (simp add: startswith_def numeral_3_eq_3)
  then have "?d = [CHR 0x60, CHR 0x60, CHR 0x60] @ r" using r
    by (metis append_take_drop_id)
  moreover have "x = takeWhile isspace x @ ?d" by simp
  moreover have "\<forall>c\<in>set (takeWhile isspace x). isspace c" by (auto dest: set_takeWhileD)
  ultimately show ?thesis using rr by metis
qed

lemma closing_fence_at_spaces:
  assumes "\<forall>c\<in>set w. isspace c"
  shows "closing_fence_at (w @ [CHR 0x60, CHR 0x60, CHR 0x60]) = Some []"
proof -
  have "dropWhile isspace (w @ [CHR 0x60, CHR 0x60, CHR 0x60]) = [CHR 0x60, CHR 0x60, CHR 0x60]"
    using assms by (simp add: dropWhile_append2)
  then show ?thesis by (simp add: closing_fence_at_def startswith_def)
qed

lemma closing_fence_at_None:
  assumes "a \<noteq> []" and "\<not> isspace (last a)" and "\<forall>c\<in>set w. isspace c"
  shows "closing_fence_at (a @ w @ [CHR 0x60, CHR 0x60, CHR 0x60]) = None"
proof (rule ccontr)
  assume "closing_fence_at (a @ w @ [CHR 0x60, CHR 0x60, CHR 0x60]) \<noteq> None"
  then obtain r where "closing_fence_at (a @ w @ [CHR 0x60, CHR 0x60, CHR 0x60]) = Some r" by auto
  from closing_fence_at_Some[OF this] obtain ws where
    ws: "\<forall>c\<in>set ws. isspace c" and
    eq: "a @ w @ [CHR 0x60, CHR 0x60, CHR 0x60] = ws @ [CHR 0x60, CHR 0x60, CHR 0x60] @ r" and
    r: "r = [] \<or> r = [CHR 0x0A]" by blast
  have "r = []"
  proof (rule ccontr)
    assume "r \<noteq> []"
    with r have "r = [CHR 0x0A]" by simp
    with eq have "last (a @ w @ [CHR 0x60, CHR 0x60, CHR 0x60]) = last (ws @ [CHR 0x60, CHR 0x60, CHR 0x60] @ [CHR 0x0A])" by simp
    then show False by simp
  qed
  with eq have "(a @ w) @ [CHR 0x60, CHR 0x60, CHR 0x60] = ws @ [CHR 0x60, CHR 0x60, CHR 0x60]" by simp
  then have "a @ w = ws" by (rule append_same_eq[THEN iffD1])
  then have "last a \<in> set ws" using assms(1) by auto
  with ws assms(2) show False by blast
qed

lemma sub_closing_fence_append:
  assumes "a = [] \<or> \<not> isspace (last a)" and "\<forall>c\<in>set w. isspace c"
  shows "sub_closing_fence (a @ w @ [CHR 0x60, CHR 0x60, CHR 0x60]) = a"
  using assms
proof (induction a)
  case Nil
  have "closing_fence_at (w @ [CHR 0x60, CHR 0x60, CHR 0x60]) = Some []"
    using Nil.prems(2) by (rule closing_fence_at_spaces)
  then show ?case by (cases w) simp_all
next
  case (Cons c a)
  have none: "closing_fence_at ((c # a) @ w @ [CHR 0x60, CHR 0x60, CHR 0x60]) = None"
    using Cons.prems by (intro closing_fence_at_None) auto
  have "a = [] \<or> \<not> isspace (last a)" using Cons.prems(1) by (cases a) auto
  then have "sub_closing_fence (a @ w @ [CHR 0x60, CHR 0x60, CHR 0x60]) = a"
    using Cons.IH Cons.prems(2) by blast
  with none show ?case by simp
qed

lemma lstrip_decomp:
  "\<exists>w. (\<forall>c\<in>set w. isspace c) \<and> lstrip t = strip t @ w"
  unfolding strip_def by (rule rstrip_decomp)

lemma lstrip_append:
  assumes "lstrip t \<noteq> []" shows "dropWhile isspace (t @ u) = lstrip t @ u"
  using assms unfolding lstrip_def by (induction t) auto

lemma strip_nonempty_lstrip: "strip t \<noteq> [] \<Longrightarrow> lstrip t \<noteq> []"
  unfolding strip_def rstrip_def by auto

lemma strip_fenced: "strip (fenced tag t) = fenced tag t"
  by (rule strip_id) (simp add: fenced_def)

lemma sub_opening_fence_fenced:
  assumes "tag = ''json'' \<or> tag = []" and "strip t \<noteq> []"
  shows "sub_opening_fence (fenced tag t) = lstrip t @ [CHR 0x0A, CHR 0x60, CHR 0x60, CHR 0x60]"
proof -
  have l: "lstrip t \<noteq> []" using assms(2) by (rule strip_nonempty_lstrip)
  have "sub_opening_fence (fenced tag t) = dropWhile isspace (CHR 0x0A # t @ [CHR 0x0A, CHR 0x60, CHR 0x60, CHR 0x60])"
    using assms(1) by (auto simp: sub_opening_fence_def fenced_def startswith_def)
  also have "\<dots> = dropWhile isspace (t @ [CHR 0x0A, CHR 0x60, CHR 0x60, CHR 0x60])" by simp
  also have "\<dots> = lstrip t @ [CHR 0x0A, CHR 0x60, CHR 0x60, CHR 0x60]" using l by (rule lstrip_append)
  finally show ?thesis .
qed

lemma cleaned_text_fenced:
  assumes "tag = ''json'' \<or> tag = []" and "strip t \<noteq> []"
  shows "cleaned_text (fenced tag t) = strip t"
proof -
  obtain w where w: "\<forall>c\<in>set w. isspace c" and lt: "lstrip t = strip t @ w"
    using lstrip_decomp by blast
  have sw: "startswith (fenced tag t) [CHR 0x60, CHR 0x60, CHR 0x60]"
    by (simp add: fenced_def startswith_def)
  have "sub_closing_fence (sub_opening_fence (fenced tag t))
          = sub_closing_fence (strip t @ (w @ [CHR 0x0A]) @ [CHR 0x60, CHR 0x60, CHR 0x60])"
    using sub_opening_fence_fenced[OF assms] lt by simp
  also have "\<dots> = strip t"
    using w strip_last[OF assms(2)] by (intro sub_closing_fence_append) auto
  finally have "sub_closing_fence (sub_opening_fence (fenced tag t)) = strip t" .
  then show ?thesis
    using sw by (simp add: cleaned_text_def strip_fenced strip_strip)
qed

lemma cleaned_text_plain:
  assumes "\<not> startswith (strip t) [CHR 0x60, CHR 0x60, CHR 0x60]"
  shows "cleaned_text t = strip t"
  using assms by (simp add: cleaned_text_def strip_strip)

subsection \<open>The required-field loop on a dictionary\<close>

lemma validate_required_obj_ok:
  "set fs \<subseteq> fst ` set kvs \<Longrightarrow> validate_required fs (JObj kvs) = Inr ()"
  by (induction fs) auto

lemma validate_required_obj_missing:
  "\<not> set fs \<subseteq> fst ` set kvs \<Longrightarrow>
     \<exists>f\<in>set fs. f \<notin> fst ` set kvs \<and>
        validate_required fs (JObj kvs) = Inl (ValueError (''Missing required field: '' @ f))"
proof (induction fs)
  case Nil
  then show ?case by simp
next
  case (Cons f fs)
  show ?case
  proof (cases "f \<in> fst ` set kvs")
    case True
    with Cons.prems have "\<not> set fs \<subseteq> fst ` set kvs" by auto
    from Cons.IH[OF this] True show ?thesis by auto
  next
    case False
    then show ?thesis by auto
  qed
qed

lemma validate_required_not_decode_error:
  "validate_required fs v \<noteq> Inl (JSONDecodeError m)"
proof (induction fs)
  case Nil
  then show ?case by simp
next
  case (Cons f fs)
  then show ?case by (cases "py_in f v"; cases v) auto
qed

text \<open>
  On every parsed value, object or not: when the test \<open>field in recipe_data\<close> does not
  answer \<open>True\<close> for a required field, the parser raises and \<open>generate_recipe\<close> fails.
\<close>

lemma validate_required_fails:
  assumes "f \<in> set fs" and "py_in f v \<noteq> Inr True"
  shows "\<exists>e. validate_required fs v = Inl e"
  using assms
proof (induction fs)
  case Nil
  then show ?case by simp
next
  case (Cons g fs)
  show ?case
  proof (cases "py_in g v")
    case (Inl e)
    then show ?thesis by simp
  next
    case (Inr present)
    show ?thesis
    proof (cases present)
      case False
      with Inr show ?thesis by simp
    next
      case True
      with Inr Cons.prems have "f \<in> set fs" by auto
      from Cons.IH[OF this Cons.prems(2)] Inr True show ?thesis by simp
    qed
  qed
qed

lemma failed_required_check_fails:
  assumes "generate_content (build_prompt ingredients cuisine_type dietary_restrictions) = Inr response_text"
    and "loads (cleaned_text response_text) = Inr v"
    and "f \<in> set required_fields" and "py_in f v \<noteq> Inr True"
  shows "\<exists>m. parse_response loads response_text = Inl (Exception m)
       \<and> fst (generate_recipe generate_content loads ingredients cuisine_type dietary_restrictions) =
             Inr [(''success'', JBool False), (''error'', JStr m),
                  (''message'', JStr ''Failed to generate recipe'')]"
proof -
  from validate_required_fails[OF assms(3,4)] obtain e where
    e: "validate_required required_fields v = Inl e" by blast
  have ne: "\<And>m. e \<noteq> JSONDecodeError m"
    using e validate_required_not_decode_error[of required_fields v] by auto
  have p: "parse_response loads response_text = Inl (Exception (''Error parsing recipe: '' @ str_exn e))"
    using assms(2) e ne by (cases e) (auto simp: parse_response_def parse_response_body_def)
  then show ?thesis
    using assms(1) by (simp add: generate_recipe_def failure_def Let_def)
qed

text \<open>On a JSON object the missing field is reported, and nothing is put in its place.\<close>

lemma missing_required_field_fails:
  assumes "generate_content (build_prompt ingredients cuisine_type dietary_restrictions) = Inr response_text"
    and "loads (cleaned_text response_text) = Inr (JObj kvs)"
    and "\<not> set required_fields \<subseteq> fst ` set kvs"
  shows "\<exists>field. field \<in> set required_fields \<and> field \<notin> fst ` set kvs
       \<and> parse_response loads response_text =
             Inl (Exception (''Error parsing recipe: Missing required field: '' @ field))
       \<and> fst (generate_recipe generate_content loads ingredients cuisine_type dietary_restrictions) =
             Inr [(''success'', JBool False),
                  (''error'', JStr (''Error parsing recipe: Missing required field: '' @ field)),
                  (''message'', JStr ''Failed to generate recipe'')]"
proof -
  from validate_required_obj_missing[OF assms(3)] obtain f where
    f: "f \<in> set required_fields" "f \<notin> fst ` set kvs"
    and v: "validate_required required_fields (JObj kvs) =
              Inl (ValueError (''Missing required field: '' @ f))"
    by blast
  have p: "parse_response loads response_text =
             Inl (Exception (''Error parsing recipe: Missing required field: '' @ f))"
    using assms(2) v by (simp add: parse_response_def parse_response_body_def)
  have "fst (generate_recipe generate_content loads ingredients cuisine_type dietary_restrictions) =
             Inr [(''success'', JBool False),
                  (''error'', JStr (''Error parsing recipe: Missing required field: '' @ f)),
                  (''message'', JStr ''Failed to generate recipe'')]"
    using assms(1) p by (simp add: generate_recipe_def failure_def Let_def)
  with f p show ?thesis by blast
qed

text \<open>
  A list that holds the three names as elements, and a string that holds them as
  substrings, pass the loop, for every loader.
\<close>

lemma validate_required_list:
  "JStr ` set fs \<subseteq> set xs \<Longrightarrow> validate_required fs (JArr xs) = Inr ()"
  by (induction fs) auto

lemma validate_required_str:
  "\<forall>f\<in>set fs. substring f s \<Longrightarrow> validate_required fs (JStr s) = Inr ()"
  by (induction fs) auto

lemma non_object_passes_required_check:
  assumes "generate_content (build_prompt ingredients cuisine_type dietary_restrictions) = Inr response_text"
    and "loads (cleaned_text response_text) = Inr v"
    and "(\<exists>xs. v = JArr xs \<and> JStr ` set required_fields \<subseteq> set xs)
         \<or> (\<exists>s. v = JStr s \<and> (\<forall>f\<in>set required_fields. substring f s))"
  shows "fst (generate_recipe generate_content loads ingredients cuisine_type dietary_restrictions) =
           Inr [(''success'', JBool True), (''recipe'', v)]"
proof -
  have "validate_required required_fields v = Inr ()"
    using assms(3) validate_required_list validate_required_str by blast
  then have "parse_response loads response_text = Inr v"
    using assms(2) by (simp add: parse_response_def parse_response_body_def)
  then show ?thesis
    using assms(1) by (simp add: generate_recipe_def Let_def)
qed

section \<open>Properties of the instances\<close>

text \<open>No JSON text is empty or begins with a backtick; the reference loader agrees.\<close>

lemma json_loads_rejects:
  assumes "s = [] \<or> hd s = CHR 0x60"
  shows "json_loads s = Inl (JSONDecodeError ''Expecting value'')"
proof (cases s)
  case Nil
  then show ?thesis by (simp add: json_loads_def skip_space_def)
next
  case (Cons c cs)
  with assms have c: "c = CHR 0x60" by simp
  have sk: "skip_space s = s" using Cons c by (simp add: skip_space_def json_space_def)
  have fu: "2 * length s + 2 = Suc (2 * length s + 1)" by simp
  have "read_value (Suc (2 * length s + 1)) (CHR 0x60 # cs) = None"
    by (simp add: startswith_def read_int_def read_nat_def is_digit_def)
  then show ?thesis
    unfolding json_loads_def sk fu using Cons c by simp
qed

lemma json_int_reads: "\<forall>n. json_int (JInt n) = Some n"
  by simp

section \<open>Properties of the request models and the views\<close>

lemma validate_str_list_strings:
  "validate_str_list field (JArr (map JStr xs)) = Inr xs"
proof -
  have "filter (\<lambda>i. \<not> is_str (map JStr xs ! i)) [0..<length xs] = []"
    by (simp add: filter_empty_conv)
  moreover have "map str_value (map JStr xs) = xs"
    by (induction xs) auto
  ultimately show ?thesis by (simp add: validate_str_list_def)
qed

lemma validate_ingredients_strings:
  assumes "map_of data ''ingredients'' = Some (JArr (map JStr xs))"
  shows "validate_ingredients max_length data =
           (if length xs < 1 then Inl [([JStr ''ingredients''], ''too_short'')]
            else if int (length xs) > max_length then Inl [([JStr ''ingredients''], ''too_long'')]
            else Inr xs)"
proof -
  have "validate_str_list ''ingredients'' (JArr (map JStr xs)) = Inr xs"
    by (rule validate_str_list_strings)
  then show ?thesis
    using assms by (simp add: validate_ingredients_def)
qed

lemma generate_recipe_calls:
  "snd (generate_recipe g loads i c d) = [build_prompt i c d]"
  by (simp add: generate_recipe_def Let_def)

lemma generate_multiple_recipes_calls:
  "snd (generate_multiple_recipes g loads i n) = [suggestions_prompt i n]"
  by (simp add: generate_multiple_recipes_def Let_def)

lemma app_generate_recipe_invalid:
  assumes "data \<noteq> []" and "RecipeRequest_validate max_length data = Inl es"
  shows "app_generate_recipe (Inr (JObj data)) g loads max_length = (validation_error_response es, [])"
  using assms by (simp add: app_generate_recipe_def generate_recipe_view_body_def)

lemma app_suggest_recipes_invalid:
  assumes "data \<noteq> []" and "MultipleRecipesRequest_validate max_length lax_int data = Inl es"
  shows "app_suggest_recipes (Inr (JObj data)) g loads max_length lax_int = (validation_error_response es, [])"
  using assms by (simp add: app_suggest_recipes_def suggest_recipes_view_body_def)

lemma app_generate_recipe_valid_calls:
  assumes "data \<noteq> []" and "RecipeRequest_validate max_length data = Inr r"
  shows "snd (app_generate_recipe (Inr (JObj data)) g loads max_length) =
           [build_prompt (rr_ingredients r) (rr_cuisine_type r) (rr_dietary_restrictions r)]"
proof -
  obtain out calls where gr: "generate_recipe g loads (rr_ingredients r) (rr_cuisine_type r)
      (rr_dietary_restrictions r) = (out, calls)" by (cases "generate_recipe g loads (rr_ingredients r) (rr_cuisine_type r)
      (rr_dietary_restrictions r)")
  with generate_recipe_calls[of g loads "rr_ingredients r" "rr_cuisine_type r" "rr_dietary_restrictions r"]
  have c: "calls = [build_prompt (rr_ingredients r) (rr_cuisine_type r) (rr_dietary_restrictions r)]"
    by simp
  show ?thesis
    using assms gr c
    by (simp add: app_generate_recipe_def generate_recipe_view_body_def
             split: sum.splits prod.splits)
qed

lemma app_suggest_recipes_valid_calls:
  assumes "data \<noteq> []" and "MultipleRecipesRequest_validate max_length lax_int data = Inr r"
  shows "snd (app_suggest_recipes (Inr (JObj data)) g loads max_length lax_int) =
           [suggestions_prompt (mr_ingredients r) (mr_count r)]"
proof -
  obtain out calls where gr: "generate_multiple_recipes g loads (mr_ingredients r) (mr_count r) = (out, calls)"
    by (cases "generate_multiple_recipes g loads (mr_ingredients r) (mr_count r)")
  with generate_multiple_recipes_calls[of g loads "mr_ingredients r" "mr_count r"]
  have c: "calls = [suggestions_prompt (mr_ingredients r) (mr_count r)]"
    by simp
  show ?thesis
    using assms gr c
    by (simp add: app_suggest_recipes_def suggest_recipes_view_body_def
             split: sum.splits prod.splits)
qed

lemma RecipeRequest_validate_bad_ingredients:
  assumes "validate_ingredients max_length data = Inl es"
  shows "\<exists>es'. RecipeRequest_validate max_length data = Inl (es @ es')"
  using assms
  by (cases "validate_cuisine_type data"; cases "validate_dietary_restrictions data")
     (simp_all add: RecipeRequest_validate_def)

lemma MultipleRecipesRequest_validate_bad_ingredients:
  assumes "validate_ingredients max_length data = Inl es"
  shows "\<exists>es'. MultipleRecipesRequest_validate max_length lax_int data = Inl (es @ es')"
  using assms
  by (cases "validate_count lax_int data") (simp_all add: MultipleRecipesRequest_validate_def)

lemma MultipleRecipesRequest_validate_bad_count:
  assumes "validate_count lax_int data = Inl es"
  shows "\<exists>es'. MultipleRecipesRequest_validate max_length lax_int data = Inl (es' @ es)"
  using assms
  by (cases "validate_ingredients max_length data") (simp_all add: MultipleRecipesRequest_validate_def)


text \<open>Data that is false is answered with HTTP 400, before validation and generation.\<close>

lemma no_data_provided:
  assumes "\<not> truthy data"
  shows "app_generate_recipe (Inr data) generate_content loads max_length =
           (\<lparr>status = 400,
             body = JObj [(''success'', JBool False), (''error'', JStr ''No data provided'')]\<rparr>,
            [])"
  using assms
  by (simp add: app_generate_recipe_def generate_recipe_view_body_def no_data_response_def)

text \<open>
  An exception of \<open>request.get_json()\<close> is raised inside the \<open>try\<close> of the view, whose
  handler answers HTTP 500.
\<close>

lemma get_json_raises_internal_error:
  "app_generate_recipe (Inl e) generate_content loads max_length =
     (\<lparr>status = 500,
       body = JObj [(''success'', JBool False), (''error'', JStr ''Internal server error''),
                    (''message'', JStr (str_exn e))]\<rparr>, [])"
  by (simp add: app_generate_recipe_def generate_recipe_view_body_def internal_error_response_def)

section \<open>The loader reads back what the serializer writes\<close>

lemma hex_value_hex_digit: "d < 16 \<Longrightarrow> hex_value (hex_digit d) = Some d"
  by (auto simp: hex_value_def hex_digit_def Let_def)

lemma hex4_of_char:
  "hex4 (CHR ''0'') (CHR ''0'') (hex_digit ((of_char c :: nat) div 16)) (hex_digit ((of_char c :: nat) mod 16)) = Some c"
proof -
  have lt: "(of_char c :: nat) < 256" by simp
  then have a: "(of_char c :: nat) div 16 < 16" by arith
  have b: "(of_char c :: nat) mod 16 < 16" by simp
  have z: "hex_value (CHR ''0'') = Some 0" by (simp add: hex_value_def)
  show ?thesis
    using lt by (simp add: hex4_def z hex_value_hex_digit[OF a] hex_value_hex_digit[OF b])
qed

lemma read_string_escape_char:
  "read_string (escape_char c @ rest) = cons_char c (read_string rest)"
proof -
  consider (q) "c = CHR 0x22" | (b) "c = CHR 0x5C" | (n) "c = CHR 0x0A" | (r) "c = CHR 0x0D"
    | (t) "c = CHR 0x09" | (f) "c = CHR 0x0C" | (bs) "c = CHR 0x08"
    | (plain) "c \<notin> {CHR 0x22, CHR 0x5C, CHR 0x0A, CHR 0x0D, CHR 0x09, CHR 0x0C, CHR 0x08}"
        "32 \<le> (of_char c :: nat) \<and> (of_char c :: nat) \<le> 126"
    | (u) "c \<notin> {CHR 0x22, CHR 0x5C, CHR 0x0A, CHR 0x0D, CHR 0x09, CHR 0x0C, CHR 0x08}"
        "\<not> (32 \<le> (of_char c :: nat) \<and> (of_char c :: nat) \<le> 126)"
    by blast
  then show ?thesis
  proof cases
    case plain
    then show ?thesis by (simp add: escape_char_def)
  next
    case u
    then show ?thesis by (simp add: escape_char_def hex4_of_char)
  qed (simp_all add: escape_char_def unescape_def)
qed

lemma read_string_escaped:
  "read_string (concat (map escape_char s) @ CHR 0x22 # rest) = Some (s, rest)"
proof (induction s)
  case Nil
  then show ?case by simp
next
  case (Cons c s)
  have "read_string (concat (map escape_char (c # s)) @ CHR 0x22 # rest)
          = read_string (escape_char c @ (concat (map escape_char s) @ CHR 0x22 # rest))"
    by simp
  also have "\<dots> = cons_char c (read_string (concat (map escape_char s) @ CHR 0x22 # rest))"
    by (rule read_string_escape_char)
  also have "\<dots> = Some (c # s, rest)" using Cons.IH by (simp add: cons_char_def)
  finally show ?case .
qed

lemma dumps_str_read:
  "dumps_str s @ rest = CHR 0x22 # (concat (map escape_char s) @ CHR 0x22 # rest)"
  by (simp add: dumps_str_def)

lemma char_of_48: "char_of (48::nat) = CHR ''0''"
proof -
  have "(of_char (char_of (48::nat) :: char) :: nat) = of_char (CHR ''0'')" by simp
  then show ?thesis by (simp only: of_char_eq_iff)
qed

lemma is_digit_char_of: "(d::nat) < 10 \<Longrightarrow> is_digit (char_of (48 + d))"
  by (simp add: is_digit_def)

lemma digits_all: "\<forall>c\<in>set (digits n). is_digit c"
proof (induction n rule: digits.induct)
  case (1 n)
  show ?case
  proof (cases "n < 10")
    case True
    then show ?thesis by (subst digits.simps) (simp add: is_digit_char_of)
  next
    case False
    have "n mod 10 < 10" by simp
    then have "is_digit (char_of (48 + n mod 10))" by (rule is_digit_char_of)
    with False "1.IH" show ?thesis by (subst digits.simps) simp
  qed
qed

lemma digits_not_Nil: "digits n \<noteq> []"
  by (subst digits.simps) simp

lemma digits_value_snoc:
  "digits_value (ds @ [c]) = 10 * digits_value ds + (int (of_char c) - 48)"
  by (simp add: digits_value_def)

lemma digits_value_digits: "digits_value (digits n) = int n"
proof (induction n rule: digits.induct)
  case (1 n)
  show ?case
  proof (cases "n < 10")
    case True
    then show ?thesis by (subst digits.simps) (simp add: digits_value_def)
  next
    case False
    have "digits_value (digits n) = 10 * digits_value (digits (n div 10))
            + (int (of_char (char_of (48 + n mod 10) :: char)) - 48)"
      using False by (subst digits.simps) (simp add: digits_value_snoc)
    also have "\<dots> = 10 * int (n div 10) + int (n mod 10)"
      using False "1.IH" by simp
    also have "\<dots> = int (10 * (n div 10) + n mod 10)"
      by (simp only: of_nat_add of_nat_mult of_nat_numeral)
    also have "\<dots> = int n" by (simp only: mult_div_mod_eq)
    finally show ?thesis .
  qed
qed

lemma digits_hd: "0 < n \<Longrightarrow> hd (digits n) \<noteq> CHR ''0''"
proof (induction n rule: digits.induct)
  case (1 n)
  show ?case
  proof (cases "n < 10")
    case True
    have "char_of (48 + n) \<noteq> CHR ''0''"
    proof
      assume "char_of (48 + n) = CHR ''0''"
      then have "(of_char (char_of (48 + n) :: char) :: nat) = of_char (CHR ''0'')" by simp
      with True "1.prems" show False by simp
    qed
    with True show ?thesis by (subst digits.simps) simp
  next
    case False
    then have "0 < n div 10" by simp
    with False "1.IH" have "hd (digits (n div 10)) \<noteq> CHR ''0''" by simp
    with False show ?thesis
      by (subst digits.simps) (simp add: digits_not_Nil)
  qed
qed

lemma digits_zero: "digits 0 = ''0''"
  by (subst digits.simps) (simp add: char_of_48)

lemma takeWhile_digits:
  assumes "rest = [] \<or> \<not> is_digit (hd rest)"
  shows "takeWhile is_digit (digits n @ rest) = digits n"
    and "dropWhile is_digit (digits n @ rest) = rest"
  using assms digits_all[of n]
  by (cases rest; simp add: takeWhile_append2 dropWhile_append2)+

lemma read_nat_digits:
  assumes "rest = [] \<or> \<not> is_digit (hd rest)"
  shows "read_nat (digits n @ rest) = Some (int n, rest)"
proof (cases "n = 0")
  case True
  then show ?thesis by (simp add: digits_zero read_nat_def)
next
  case False
  obtain c cs where d: "digits n = c # cs" using digits_not_Nil[of n] by (cases "digits n") auto
  have c0: "c \<noteq> CHR ''0''" using digits_hd[of n] False d by simp
  have cd: "is_digit c" using digits_all[of n] d by simp
  have "read_nat ((c # cs) @ rest) =
          Some (digits_value (takeWhile is_digit ((c # cs) @ rest)), dropWhile is_digit ((c # cs) @ rest))"
    using c0 cd by (simp add: read_nat_def)
  moreover have "takeWhile is_digit ((c # cs) @ rest) = c # cs"
    and "dropWhile is_digit ((c # cs) @ rest) = rest"
    using takeWhile_digits[OF assms, of n] unfolding d by blast+
  moreover have "digits_value (c # cs) = int n"
    using digits_value_digits[of n] unfolding d .
  ultimately show ?thesis unfolding d by simp
qed

lemma follows_not_digit: "follows rest \<Longrightarrow> rest = [] \<or> \<not> is_digit (hd rest)"
  by (auto simp: follows_def is_digit_def)

lemma read_int_str_int:
  assumes "follows rest"
  shows "read_int (str_int i @ rest) = Some (i, rest)"
proof -
  have nd: "rest = [] \<or> \<not> is_digit (hd rest)" using assms by (rule follows_not_digit)
  have tail: "\<not> (rest \<noteq> [] \<and> (hd rest = CHR ''.'' \<or> hd rest = CHR ''e'' \<or> hd rest = CHR ''E''))"
    using assms by (auto simp: follows_def)
  show ?thesis
  proof (cases "i < 0")
    case True
    have "read_nat (digits (nat (- i)) @ rest) = Some (int (nat (- i)), rest)"
      using nd by (rule read_nat_digits)
    then show ?thesis using True tail by (simp add: read_int_def str_int_def)
  next
    case False
    obtain c cs where d: "digits (nat i) = c # cs"
      using digits_not_Nil[of "nat i"] by (cases "digits (nat i)") auto
    have "is_digit c" using digits_all[of "nat i"] d by simp
    then have cm: "c \<noteq> CHR ''-''" by (auto simp: is_digit_def)
    have "read_nat (digits (nat i) @ rest) = Some (int (nat i), rest)"
      using nd by (rule read_nat_digits)
    then show ?thesis using False tail d cm by (simp add: read_int_def str_int_def)
  qed
qed

lemma skip_space_Cons: "\<not> json_space c \<Longrightarrow> skip_space (c # cs) = c # cs"
  by (simp add: skip_space_def)

lemma skip_space_blank: "skip_space (CHR '' '' # s) = skip_space s"
  by (simp add: skip_space_def json_space_def)

lemma str_int_hd: "\<exists>c cs. str_int i = c # cs \<and> (is_digit c \<or> c = CHR ''-'')"
proof -
  obtain c cs where d: "digits (nat \<bar>i\<bar>) = c # cs"
    using digits_not_Nil[of "nat \<bar>i\<bar>"] by (cases "digits (nat \<bar>i\<bar>)") auto
  have "is_digit c" using digits_all[of "nat \<bar>i\<bar>"] d by simp
  then show ?thesis using d by (cases "i < 0") (auto simp: str_int_def)
qed

lemma opensE: "opens s \<Longrightarrow> \<exists>c cs. s = c # cs \<and> \<not> json_space c \<and> c \<noteq> CHR '']'' \<and> c \<noteq> CHR ''}''"
  by (cases s) (auto simp: opens_def)

lemma opens_dumps: "in_fragment v \<Longrightarrow> opens (json_dumps fr v)"
proof (cases v)
  case (JInt i)
  obtain c cs where "str_int i = c # cs" "is_digit c \<or> c = CHR ''-''"
    using str_int_hd by blast
  then show ?thesis using JInt by (auto simp: opens_def json_space_def is_digit_def)
qed (auto simp: opens_def json_space_def dumps_str_def)

lemma join_Cons: "join sep (x # xs) = x @ (if xs = [] then [] else sep @ join sep xs)"
  by (cases xs) simp_all

lemma read_value_int:
  assumes "follows rest"
  shows "read_value (Suc n) (str_int i @ rest) = Some (JInt i, rest)"
proof -
  obtain c cs where s: "str_int i = c # cs" and c: "is_digit c \<or> c = CHR ''-''"
    using str_int_hd by blast
  have r: "read_int ((c # cs) @ rest) = Some (i, rest)"
    using read_int_str_int[OF assms, of i] unfolding s .
  from c have ne: "c \<noteq> CHR ''{''" "c \<noteq> CHR ''[''" "c \<noteq> CHR 0x22" "c \<noteq> CHR ''t''"
    "c \<noteq> CHR ''f''" "c \<noteq> CHR ''n''"
    by (auto simp: is_digit_def)
  show ?thesis
    unfolding s using ne r by (simp add: startswith_def)
qed

lemma read_value_str:
  "read_value (Suc n) (dumps_str s @ rest) = Some (JStr s, rest)"
  by (simp add: dumps_str_read read_string_escaped)

lemma read_elements_join:
  assumes "xs \<noteq> []"
    and "\<And>x n rest. x \<in> set xs \<Longrightarrow> fuel_for x \<le> n \<Longrightarrow> follows rest \<Longrightarrow>
            read_value n (json_dumps fr x @ rest) = Some (x, rest)"
    and "\<And>x. x \<in> set xs \<Longrightarrow> opens (json_dumps fr x)"
    and "sum_list (map (\<lambda>x. Suc (fuel_for x)) xs) \<le> m"
  shows "read_elements m acc (join '', '' (map (json_dumps fr) xs) @ CHR '']'' # rest)
           = Some (acc @ xs, rest)"
  using assms
proof (induction xs arbitrary: m acc rule: list_nonempty_induct)
  case (single x)
  from single.prems(3) obtain m' where m: "m = Suc m'" and f: "fuel_for x \<le> m'"
    by (cases m) auto
  have "read_value m' (json_dumps fr x @ CHR '']'' # rest) = Some (x, CHR '']'' # rest)"
    using f by (intro single.prems(1)) (simp_all add: follows_def)
  then show ?case
    unfolding m by (simp add: skip_space_def json_space_def startswith_def)
next
  case (cons x xs)
  from cons.prems(3) obtain m' where m: "m = Suc m'" and f: "fuel_for x \<le> m'"
    and rest_fuel: "sum_list (map (\<lambda>x. Suc (fuel_for x)) xs) \<le> m'"
    by (cases m) auto
  let ?tail = "join '', '' (map (json_dumps fr) xs) @ CHR '']'' # rest"
  obtain y ys where xs: "xs = y # ys" using cons.hyps by (cases xs) auto
  have "opens (json_dumps fr y)" using cons.prems(2) xs by simp
  then obtain c cs where y: "json_dumps fr y = c # cs" and nsp: "\<not> json_space c"
    using opensE by blast
  have tail_hd: "?tail = c # (cs @ (if ys = [] then [] else '', '' @ join '', '' (map (json_dumps fr) ys)) @ CHR '']'' # rest)"
    unfolding xs by (simp add: join_Cons y)
  have sk: "skip_space (CHR '' '' # ?tail) = ?tail"
    by (subst skip_space_blank, subst tail_hd, subst skip_space_Cons[OF nsp]) (simp add: tail_hd)
  have whole: "join '', '' (map (json_dumps fr) (x # xs)) @ CHR '']'' # rest
                 = json_dumps fr x @ CHR '','' # CHR '' '' # ?tail"
    using cons.hyps by (simp add: join_Cons)
  have rv: "read_value m' (json_dumps fr x @ CHR '','' # CHR '' '' # ?tail)
              = Some (x, CHR '','' # CHR '' '' # ?tail)"
    using f by (intro cons.prems(1)) (simp_all add: follows_def)
  have ih: "read_elements m' (acc @ [x]) ?tail = Some ((acc @ [x]) @ xs, rest)"
    using cons.prems(1,2) rest_fuel by (intro cons.IH) auto
  show ?case
    unfolding whole m
    using rv ih sk
    by (simp add: skip_space_Cons json_space_def startswith_def)
qed

lemma dict_set_fresh: "k \<notin> fst ` set acc \<Longrightarrow> dict_set acc k v = acc @ [(k, v)]"
  by (induction acc) auto

lemma read_member_step:
  assumes "read_value n (json_dumps fr v @ tail) = Some (v, tail)"
    and "opens (json_dumps fr v)"
  shows "read_string (drop 1 (dumps_member fr (k, v) @ tail)) = Some (k, '': '' @ json_dumps fr v @ tail)"
    and "read_value n (skip_space (drop 1 (skip_space ('': '' @ json_dumps fr v @ tail)))) = Some (v, tail)"
    and "startswith (dumps_member fr (k, v) @ tail) [CHR 0x22]"
proof -
  show "read_string (drop 1 (dumps_member fr (k, v) @ tail)) = Some (k, '': '' @ json_dumps fr v @ tail)"
    using read_string_escaped[of k "'': '' @ json_dumps fr v @ tail"]
    by (simp add: dumps_member_def dumps_str_def)
  obtain c cs where y: "json_dumps fr v = c # cs" and nsp: "\<not> json_space c"
    using opensE[OF assms(2)] by blast
  have "skip_space (drop 1 (skip_space ('': '' @ json_dumps fr v @ tail))) = json_dumps fr v @ tail"
    unfolding y using nsp by (simp add: skip_space_def json_space_def)
  then show "read_value n (skip_space (drop 1 (skip_space ('': '' @ json_dumps fr v @ tail)))) = Some (v, tail)"
    using assms(1) by simp
  show "startswith (dumps_member fr (k, v) @ tail) [CHR 0x22]"
    by (simp add: dumps_member_def dumps_str_def startswith_def)
qed

lemma read_members_join:
  assumes "kvs \<noteq> []"
    and "\<And>p n rest. p \<in> set kvs \<Longrightarrow> fuel_for (snd p) \<le> n \<Longrightarrow> follows rest \<Longrightarrow>
            read_value n (json_dumps fr (snd p) @ rest) = Some (snd p, rest)"
    and "\<And>p. p \<in> set kvs \<Longrightarrow> opens (json_dumps fr (snd p))"
    and "distinct (map fst kvs)"
    and "fst ` set acc \<inter> fst ` set kvs = {}"
    and "sum_list (map (\<lambda>p. Suc (fuel_for (snd p))) kvs) \<le> m"
  shows "read_members m acc (join '', '' (map (dumps_member fr) kvs) @ CHR ''}'' # rest)
           = Some (acc @ kvs, rest)"
  using assms
proof (induction kvs arbitrary: m acc rule: list_nonempty_induct)
  case (single p)
  obtain k v where p: "p = (k, v)" by (cases p)
  from single.prems(5) obtain m' where m: "m = Suc m'" and f: "fuel_for v \<le> m'"
    unfolding p by (cases m) auto
  let ?tail = "CHR ''}'' # rest"
  have rv: "read_value m' (json_dumps fr v @ ?tail) = Some (v, ?tail)"
    using single.prems(1)[of p m' ?tail] f by (simp add: p follows_def)
  have op: "opens (json_dumps fr v)" using single.prems(2)[of p] by (simp add: p)
  have fresh: "k \<notin> fst ` set acc" using single.prems(4) by (auto simp: p)
  note st = read_member_step(1)[OF rv op, of k] read_member_step(2)[OF rv op]
    read_member_step(3)[OF rv op, of k]
  show ?case
    unfolding m p using st fresh
    by (simp add: skip_space_def json_space_def startswith_def dict_set_fresh)
next
  case (cons p kvs)
  obtain k v where p: "p = (k, v)" by (cases p)
  from cons.prems(5) obtain m' where m: "m = Suc m'" and f: "fuel_for v \<le> m'"
    and rest_fuel: "sum_list (map (\<lambda>p. Suc (fuel_for (snd p))) kvs) \<le> m'"
    unfolding p by (cases m) auto
  let ?next = "join '', '' (map (dumps_member fr) kvs) @ CHR ''}'' # rest"
  let ?tail = "CHR '','' # CHR '' '' # ?next"
  obtain q qs where kvs: "kvs = q # qs" using cons.hyps by (cases kvs) auto
  have next_hd: "?next = CHR 0x22 # tl ?next"
    unfolding kvs by (simp add: join_Cons dumps_member_def dumps_str_def)
  have sk: "skip_space (CHR '' '' # ?next) = ?next"
    by (subst skip_space_blank, subst next_hd, subst skip_space_Cons)
       (simp_all add: json_space_def next_hd[symmetric])
  have whole: "join '', '' (map (dumps_member fr) (p # kvs)) @ CHR ''}'' # rest
                 = dumps_member fr (k, v) @ ?tail"
    using cons.hyps by (simp add: join_Cons p)
  have rv: "read_value m' (json_dumps fr v @ ?tail) = Some (v, ?tail)"
    using cons.prems(1)[of p m' ?tail] f by (simp add: p follows_def)
  have op: "opens (json_dumps fr v)" using cons.prems(2)[of p] by (simp add: p)
  have fresh: "k \<notin> fst ` set acc" using cons.prems(4) by (auto simp: p)
  have disj: "fst ` set (acc @ [(k, v)]) \<inter> fst ` set kvs = {}"
    using cons.prems(3,4) by (auto simp: p)
  have ih: "read_members m' (acc @ [(k, v)]) ?next = Some ((acc @ [(k, v)]) @ kvs, rest)"
    using cons.prems(1,2,3) rest_fuel disj by (intro cons.IH) auto
  note st = read_member_step(1)[OF rv op, of k] read_member_step(2)[OF rv op]
    read_member_step(3)[OF rv op, of k]
  show ?case
    unfolding whole m using st fresh ih sk
    by (simp add: skip_space_Cons json_space_def startswith_def dict_set_fresh p)
qed

lemma json_dumps_obj:
  "json_dumps fr (JObj kvs) = CHR ''{'' # join '', '' (map (dumps_member fr) kvs) @ ''}''"
proof -
  have "(\<lambda>p. dumps_str (fst p) @ '': '' @ json_dumps fr (snd p)) = dumps_member fr"
    by (rule ext) (simp add: dumps_member_def)
  then show ?thesis by simp
qed

lemma join_opens:
  assumes "xs \<noteq> []" and "opens (hd xs)"
  shows "opens (join sep xs @ rest)"
  using assms by (cases xs) (auto simp: join_Cons opens_def)

lemma read_value_dumps:
  "in_fragment v \<Longrightarrow> fuel_for v \<le> n \<Longrightarrow> follows rest \<Longrightarrow>
     read_value n (json_dumps fr v @ rest) = Some (v, rest)"
proof (induction v arbitrary: n rest)
  case JNull
  then obtain m where "n = Suc m" by (cases n) auto
  then show ?case by (simp add: startswith_def)
next
  case (JBool b)
  then obtain m where "n = Suc m" by (cases n) auto
  then show ?case by (simp add: startswith_def)
next
  case (JInt i)
  then obtain m where "n = Suc m" by (cases n) auto
  then show ?case using read_value_int[OF JInt.prems(3), of m i] by (simp only: json_dumps.simps)
next
  case (JFloat w)
  then show ?case by simp
next
  case (JStr s)
  then obtain m where "n = Suc m" by (cases n) auto
  then show ?case using read_value_str[of m s rest] by (simp only: json_dumps.simps)
next
  case (JArr xs)
  from JArr.prems(2) obtain m where n: "n = Suc m"
    and fuel: "sum_list (map (\<lambda>x. Suc (fuel_for x)) xs) \<le> m"
    by (cases n) auto
  show ?case
  proof (cases "xs = []")
    case True
    then show ?thesis unfolding n by (simp add: skip_space_def json_space_def startswith_def)
  next
    case False
    let ?body = "join '', '' (map (json_dumps fr) xs) @ CHR '']'' # rest"
    have frag: "\<And>x. x \<in> set xs \<Longrightarrow> in_fragment x" using JArr.prems(1) by simp
    have op1: "\<And>x. x \<in> set xs \<Longrightarrow> opens (json_dumps fr x)"
      using frag by (simp add: opens_dumps)
    have "opens (hd (map (json_dumps fr) xs))"
      using False op1 by (cases xs) auto
    then have "opens ?body" using False by (intro join_opens) auto
    then obtain c cs where b: "?body = c # cs" and nsp: "\<not> json_space c" and nc: "c \<noteq> CHR '']''"
      using opensE by blast
    have re: "read_elements m [] ?body = Some ([] @ xs, rest)"
      using False fuel op1 JArr.IH frag by (intro read_elements_join) auto
    have "json_dumps fr (JArr xs) @ rest = CHR ''['' # ?body" by simp
    then show ?thesis
      unfolding n using re nsp nc unfolding b
      by (simp add: skip_space_Cons startswith_def)
  qed
next
  case (JObj kvs)
  from JObj.prems(2) obtain m where n: "n = Suc m"
    and fuel: "sum_list (map (\<lambda>p. Suc (fuel_for (snd p))) kvs) \<le> m"
    by (cases n) auto
  show ?case
  proof (cases "kvs = []")
    case True
    then show ?thesis unfolding n by (simp add: skip_space_def json_space_def startswith_def)
  next
    case False
    let ?body = "join '', '' (map (dumps_member fr) kvs) @ CHR ''}'' # rest"
    have frag: "\<And>p. p \<in> set kvs \<Longrightarrow> in_fragment (snd p)" using JObj.prems(1) by simp
    have dist: "distinct (map fst kvs)" using JObj.prems(1) by simp
    have op1: "\<And>p. p \<in> set kvs \<Longrightarrow> opens (json_dumps fr (snd p))"
      using frag by (simp add: opens_dumps)
    have ih: "\<And>p n rest. p \<in> set kvs \<Longrightarrow> fuel_for (snd p) \<le> n \<Longrightarrow> follows rest \<Longrightarrow>
            read_value n (json_dumps fr (snd p) @ rest) = Some (snd p, rest)"
    proof -
      fix p :: "string \<times> json" and n rest
      assume p: "p \<in> set kvs" and f: "fuel_for (snd p) \<le> n" and fo: "follows rest"
      have "snd p \<in> Basic_BNFs.snds p" by (cases p) simp
      from JObj.IH[OF p this frag[OF p] f fo]
      show "read_value n (json_dumps fr (snd p) @ rest) = Some (snd p, rest)" .
    qed
    obtain q qs where kvs: "kvs = q # qs" using False by (cases kvs) auto
    have b: "?body = CHR 0x22 # tl ?body"
      unfolding kvs by (simp add: join_Cons dumps_member_def dumps_str_def)
    have re: "read_members m [] ?body = Some ([] @ kvs, rest)"
      using False fuel op1 ih dist by (intro read_members_join) auto
    have sk: "skip_space ?body = ?body"
      by (subst b, subst skip_space_Cons) (simp_all add: json_space_def b[symmetric])
    have ns: "\<not> startswith ?body ''}''"
      by (subst b) (simp add: startswith_def)
    have "json_dumps fr (JObj kvs) @ rest = CHR ''{'' # ?body"
      by (subst json_dumps_obj) simp
    then show ?thesis
      unfolding n using re sk ns by simp
  qed
qed

lemma length_join:
  "xs \<noteq> [] \<Longrightarrow> length (join sep xs) + length sep = sum_list (map length xs) + length sep * length xs"
  by (induction xs rule: list_nonempty_induct) (simp_all add: join_Cons)

lemma fuel_for_bound: "fuel_for v \<le> 2 * length (json_dumps fr v) + 1"
proof (induction v)
  case (JArr xs)
  show ?case
  proof (cases "xs = []")
    case True
    then show ?thesis by simp
  next
    case False
    have "sum_list (map (\<lambda>x. Suc (fuel_for x)) xs)
            \<le> sum_list (map (\<lambda>x. 2 * length (json_dumps fr x) + 2) xs)"
      using JArr.IH by (intro sum_list_mono) auto
    also have "\<dots> = 2 * sum_list (map length (map (json_dumps fr) xs)) + 2 * length xs"
      by (induction xs) auto
    finally have a: "sum_list (map (\<lambda>x. Suc (fuel_for x)) xs)
            \<le> 2 * sum_list (map length (map (json_dumps fr) xs)) + 2 * length xs" .
    have "length (join '', '' (map (json_dumps fr) xs)) + 2
            = sum_list (map length (map (json_dumps fr) xs)) + 2 * length xs"
      using length_join[of "map (json_dumps fr) xs" "'', ''"] False by simp
    with a show ?thesis by simp
  qed
next
  case (JObj kvs)
  show ?case
  proof (cases "kvs = []")
    case True
    then show ?thesis by simp
  next
    case False
    have "\<And>p. p \<in> set kvs \<Longrightarrow> Suc (fuel_for (snd p)) \<le> 2 * length (dumps_member fr p) + 2"
    proof -
      fix p :: "string \<times> json" assume p: "p \<in> set kvs"
      have "snd p \<in> Basic_BNFs.snds p" by (cases p) simp
      from JObj.IH[OF p this] show "Suc (fuel_for (snd p)) \<le> 2 * length (dumps_member fr p) + 2"
        by (simp add: dumps_member_def)
    qed
    then have "sum_list (map (\<lambda>p. Suc (fuel_for (snd p))) kvs)
            \<le> sum_list (map (\<lambda>p. 2 * length (dumps_member fr p) + 2) kvs)"
      by (intro sum_list_mono) auto
    also have "\<dots> = 2 * sum_list (map length (map (dumps_member fr) kvs)) + 2 * length kvs"
      by (induction kvs) auto
    finally have a: "sum_list (map (\<lambda>p. Suc (fuel_for (snd p))) kvs)
            \<le> 2 * sum_list (map length (map (dumps_member fr) kvs)) + 2 * length kvs" .
    have "length (join '', '' (map (dumps_member fr) kvs)) + 2
            = sum_list (map length (map (dumps_member fr) kvs)) + 2 * length kvs"
      using length_join[of "map (dumps_member fr) kvs" "'', ''"] False by simp
    with a show ?thesis by (subst json_dumps_obj) simp
  qed
qed simp_all

lemma json_loads_json_dumps:
  assumes "in_fragment v"
  shows "json_loads (json_dumps fr v) = Inr v"
proof -
  obtain c cs where d: "json_dumps fr v = c # cs" and nsp: "\<not> json_space c"
    using opensE[OF opens_dumps[OF assms]] by blast
  have sk: "skip_space (json_dumps fr v) = json_dumps fr v"
    unfolding d using nsp by (rule skip_space_Cons)
  have "fuel_for v \<le> 2 * length (json_dumps fr v) + 2"
    using fuel_for_bound[of v fr] by simp
  then have "read_value (2 * length (json_dumps fr v) + 2) (json_dumps fr v @ []) = Some (v, [])"
    using assms by (intro read_value_dumps) (simp_all add: follows_def)
  then have rv: "read_value (2 * length (json_dumps fr v) + 2) (json_dumps fr v) = Some (v, [])"
    by (simp only: append_Nil2)
  have e: "skip_space [] = []" by (simp add: skip_space_def)
  show ?thesis
    unfolding json_loads_def sk rv using e by simp
qed

section \<open>The claims\<close>

text \<open>
  \<^bold>\<open>C1\<close> (as amended). On the multi-recipe path, when the response parses as a JSON object
  without the key \<open>recipes\<close>, no error is raised: \<open>recipes_data.get("recipes", [])\<close> supplies
  the empty list and the method returns \<open>success = True\<close> with \<open>recipes = []\<close>.
\<close>

theorem absent_recipes_key_defaults_to_empty:
  assumes "generate_content (suggestions_prompt ingredients count) = Inr response_text"
    and "loads (cleaned_text response_text) = Inr (JObj kvs)"
    and "''recipes'' \<notin> fst ` set kvs"
  shows "fst (generate_multiple_recipes generate_content loads ingredients count) =
           Inr [(''success'', JBool True), (''recipes'', JArr [])]"
proof -
  from assms(3) have "map_of kvs ''recipes'' = None"
    by (simp add: map_of_eq_None_iff)
  then show ?thesis
    using assms(1,2) by (simp add: generate_multiple_recipes_def Let_def)
qed

theorem absent_recipes_key_defaults_to_empty_witness:
  "replies summary_without_recipes (suggestions_prompt [''egg''] 3) = Inr summary_without_recipes
   \<and> json_loads (cleaned_text summary_without_recipes) =
      Inr (JObj [(''suggestions'', JArr [JObj [(''recipe_name'', JStr ''Omelette'')]])])
   \<and> ''recipes'' \<notin> fst ` set [(''suggestions'', JArr [JObj [(''recipe_name'', JStr ''Omelette'')]])]
   \<and> fst (generate_multiple_recipes (replies summary_without_recipes) json_loads [''egg''] 3) =
      Inr [(''success'', JBool True), (''recipes'', JArr [])]"
proof -
  let ?kvs = "[(''suggestions'', JArr [JObj [(''recipe_name'', JStr ''Omelette'')]])]"
  have h1: "replies summary_without_recipes (suggestions_prompt [''egg''] 3) = Inr summary_without_recipes"
    by (simp add: replies_def)
  have h2: "json_loads (cleaned_text summary_without_recipes) = Inr (JObj ?kvs)"
    by code_simp
  have h3: "''recipes'' \<notin> fst ` set ?kvs" by simp
  show ?thesis
    using h1 h2 h3
      absent_recipes_key_defaults_to_empty[where generate_content = "replies summary_without_recipes"
        and loads = json_loads and ingredients = "[''egg'']" and count = 3
        and response_text = summary_without_recipes and kvs = ?kvs, OF h1 h2 h3]
    by simp
qed

text \<open>
  The claim C1 as it was stated (a missing-field error and \<open>success = False\<close>, no empty list
  put in place of the missing field) fails on a response whose object has no \<open>recipes\<close>
  key.
\<close>

theorem absent_recipes_key_counterexample:
  "json_loads (cleaned_text summary_without_recipes) =
      Inr (JObj [(''suggestions'', JArr [JObj [(''recipe_name'', JStr ''Omelette'')]])])
   \<and> ''recipes'' \<notin> fst ` set [(''suggestions'', JArr [JObj [(''recipe_name'', JStr ''Omelette'')]])]
   \<and> fst (generate_multiple_recipes (replies summary_without_recipes) json_loads [''egg''] 3) =
      Inr [(''success'', JBool True), (''recipes'', JArr [])]"
proof -
  have "json_loads (cleaned_text summary_without_recipes) =
      Inr (JObj [(''suggestions'', JArr [JObj [(''recipe_name'', JStr ''Omelette'')]])])"
    by code_simp
  then show ?thesis
    by (simp add: generate_multiple_recipes_def replies_def Let_def)
qed

text \<open>
  \<^bold>\<open>C2.\<close> When \<open>json.loads\<close> raises \<open>JSONDecodeError\<close> on the cleaned response text
  (the text is not valid JSON), the single-recipe path succeeds with the fallback recipe:
  \<open>_parse_response\<close> returns, and \<open>generate_recipe\<close> wraps with \<open>success = True\<close>, the
  dictionary whose \<open>recipe_name\<close> is "Generated Recipe", whose \<open>description\<close> is the first
  200 characters of the raw response text, whose \<open>ingredients\<close> is the empty list, whose
  \<open>instructions\<close> is the one-element list holding the raw response text, and whose \<open>error\<close>
  field notes that structured parsing failed.
\<close>

theorem malformed_json_fallback:
  assumes "generate_content (build_prompt ingredients cuisine_type dietary_restrictions) = Inr response_text"
    and "loads (cleaned_text response_text) = Inl (JSONDecodeError m)"
  shows "parse_response loads response_text =
           Inr (JObj [(''recipe_name'', JStr ''Generated Recipe''),
                      (''description'', JStr (take 200 response_text)),
                      (''ingredients'', JArr []),
                      (''instructions'', JArr [JStr response_text]),
                      (''error'', JStr ''Failed to parse structured recipe'')])
       \<and> fst (generate_recipe generate_content loads ingredients cuisine_type dietary_restrictions) =
           Inr [(''success'', JBool True),
                (''recipe'',
                 JObj [(''recipe_name'', JStr ''Generated Recipe''),
                       (''description'', JStr (take 200 response_text)),
                       (''ingredients'', JArr []),
                       (''instructions'', JArr [JStr response_text]),
                       (''error'', JStr ''Failed to parse structured recipe'')])]"
proof -
  have p: "parse_response loads response_text = Inr (fallback_recipe response_text)"
    using assms(2) by (simp add: parse_response_def parse_response_body_def)
  then show ?thesis
    using assms(1) by (simp add: generate_recipe_def fallback_recipe_def Let_def)
qed

theorem malformed_json_fallback_witness:
  "replies ''Mix, then bake.'' (build_prompt [''flour''] None None) = Inr ''Mix, then bake.''
   \<and> json_loads (cleaned_text ''Mix, then bake.'') = Inl (JSONDecodeError ''Expecting value'')
   \<and> fst (generate_recipe (replies ''Mix, then bake.'') json_loads [''flour''] None None) =
           Inr [(''success'', JBool True),
                (''recipe'',
                 JObj [(''recipe_name'', JStr ''Generated Recipe''),
                       (''description'', JStr ''Mix, then bake.''),
                       (''ingredients'', JArr []),
                       (''instructions'', JArr [JStr ''Mix, then bake.'']),
                       (''error'', JStr ''Failed to parse structured recipe'')])]"
proof -
  have h1: "replies ''Mix, then bake.'' (build_prompt [''flour''] None None) = Inr ''Mix, then bake.''"
    by (simp add: replies_def)
  have h2: "json_loads (cleaned_text ''Mix, then bake.'') = Inl (JSONDecodeError ''Expecting value'')"
    by code_simp
  show ?thesis
    using h1 h2
      malformed_json_fallback[where generate_content = "replies ''Mix, then bake.''"
        and loads = json_loads and ingredients = "[''flour'']" and cuisine_type = None
        and dietary_restrictions = None and response_text = "''Mix, then bake.''"
        and m = "''Expecting value''"]
    by simp
qed

text \<open>
  \<^bold>\<open>C3.\<close> For every recipe object with the three required fields, parsing its serialized
  form returns it exactly: every field, also every field the schema does not list, with
  its value and at its position. This holds for every loader and every object text (an
  opening brace, a closing brace) that the loader reads back as the object; and it holds
  outright for \<open>json_dumps\<close> and \<open>json_loads\<close> on every object of the fragment, where the
  loader is proved to read back what the serializer writes.
\<close>

theorem valid_recipe_passes_through:
  assumes "set required_fields \<subseteq> fst ` set recipe"
  shows "(\<forall>loads serialized inner.
            serialized = CHR ''{'' # inner @ ''}'' \<and> loads serialized = Inr (JObj recipe) \<longrightarrow>
            parse_response loads serialized = Inr (JObj recipe))
       \<and> (in_fragment (JObj recipe) \<longrightarrow>
            parse_response json_loads (json_dumps float_repr (JObj recipe)) = Inr (JObj recipe))"
proof -
  have general: "parse_response loads serialized = Inr (JObj recipe)"
    if shape: "serialized = CHR ''{'' # inner @ ''}''"
      and reads: "loads serialized = Inr (JObj recipe)"
    for loads :: loader and serialized inner
  proof -
    have "strip serialized = serialized"
      using shape by (intro strip_id) (simp add: isspace_def)
    moreover have "\<not> startswith serialized [CHR 0x60, CHR 0x60, CHR 0x60]"
      using shape by (simp add: startswith_def)
    ultimately have "cleaned_text serialized = serialized"
      by (simp add: cleaned_text_def)
    then show ?thesis
      using reads validate_required_obj_ok[OF assms]
      by (simp add: parse_response_def parse_response_body_def)
  qed
  have "parse_response json_loads (json_dumps float_repr (JObj recipe)) = Inr (JObj recipe)"
    if frag: "in_fragment (JObj recipe)"
  proof -
    have "json_dumps float_repr (JObj recipe)
            = CHR ''{'' # join '', '' (map (dumps_member float_repr) recipe) @ ''}''"
      by (rule json_dumps_obj)
    moreover have "json_loads (json_dumps float_repr (JObj recipe)) = Inr (JObj recipe)"
      using frag by (rule json_loads_json_dumps)
    ultimately show ?thesis by (rule general)
  qed
  with general show ?thesis by blast
qed

theorem valid_recipe_passes_through_witness:
  "set required_fields \<subseteq> fst ` set toast_recipe
   \<and> in_fragment (JObj toast_recipe)
   \<and> json_dumps any_float_repr (JObj toast_recipe) = toast_recipe_text
   \<and> json_loads toast_recipe_text = Inr (JObj toast_recipe)
   \<and> parse_response json_loads toast_recipe_text = Inr (JObj toast_recipe)"
proof -
  have h1: "set required_fields \<subseteq> fst ` set toast_recipe"
    by (simp add: required_fields_def toast_recipe_def)
  have h2: "in_fragment (JObj toast_recipe)"
    by (simp add: toast_recipe_def)
  have h3: "json_dumps any_float_repr (JObj toast_recipe) = toast_recipe_text"
    by code_simp
  have h4: "json_loads toast_recipe_text = Inr (JObj toast_recipe)"
    by code_simp
  from valid_recipe_passes_through[OF h1, of any_float_repr] h2
  have "parse_response json_loads (json_dumps any_float_repr (JObj toast_recipe)) = Inr (JObj toast_recipe)"
    by blast
  with h1 h2 h3 h4 show ?thesis by simp
qed

text \<open>
  \<^bold>\<open>C4.\<close> Let a text be JSON text (the loader reads it, once stripped of surrounding
  whitespace, as the parser presents every text), for a loader that, like every JSON
  loader, rejects the empty text and a text that begins with a backtick. Wrapped in an
  opening fence line, tagged \<open>json\<close> or bare, and a closing fence line, the text is cleaned to
  the same argument of the loader as unwrapped, so backticks inside it stay where they
  are, and \<open>_parse_response\<close> returns the same result for both.
\<close>

theorem fenced_json_parses_as_unfenced:
  assumes "tag = ''json'' \<or> tag = []"
    and "loads (strip response_text) = Inr recipe_data"
    and "\<forall>s. s = [] \<or> hd s = CHR 0x60 \<longrightarrow> (\<exists>m. loads s = Inl (JSONDecodeError m))"
  shows "cleaned_text (fenced tag response_text) = cleaned_text response_text
       \<and> parse_response loads (fenced tag response_text) = parse_response loads response_text"
proof -
  have ne: "strip response_text \<noteq> []" using assms(2,3) by force
  have "hd (strip response_text) \<noteq> CHR 0x60" using assms(2,3) by force
  then have "\<not> startswith (strip response_text) [CHR 0x60, CHR 0x60, CHR 0x60]"
    using ne by (cases "strip response_text") (auto simp: startswith_def)
  then have plain: "cleaned_text response_text = strip response_text" by (rule cleaned_text_plain)
  have fen: "cleaned_text (fenced tag response_text) = strip response_text"
    using assms(1) ne by (rule cleaned_text_fenced)
  have "\<And>m. validate_required required_fields recipe_data \<noteq> Inl (JSONDecodeError m)"
    by (rule validate_required_not_decode_error)
  then show ?thesis
    using plain fen assms(2)
    by (auto simp: parse_response_def parse_response_body_def split: sum.splits exn.splits)
qed

theorem fenced_json_parses_as_unfenced_witness:
  "json_loads (strip toast_recipe_text) = Inr (JObj toast_recipe)
   \<and> cleaned_text (fenced ''json'' toast_recipe_text) = cleaned_text toast_recipe_text
   \<and> parse_response json_loads (fenced ''json'' toast_recipe_text) = Inr (JObj toast_recipe)
   \<and> parse_response json_loads (fenced [] toast_recipe_text) = Inr (JObj toast_recipe)
   \<and> parse_response json_loads toast_recipe_text = Inr (JObj toast_recipe)"
proof -
  have h2: "json_loads (strip toast_recipe_text) = Inr (JObj toast_recipe)"
    by code_simp
  have h3: "\<forall>s. s = [] \<or> hd s = CHR 0x60 \<longrightarrow> (\<exists>m. json_loads s = Inl (JSONDecodeError m))"
    using json_loads_rejects by blast
  have p: "parse_response json_loads toast_recipe_text = Inr (JObj toast_recipe)"
    by code_simp
  note t = fenced_json_parses_as_unfenced[where loads = json_loads and response_text = toast_recipe_text
      and recipe_data = "JObj toast_recipe", OF _ h2 h3]
  have "''json'' = ''json'' \<or> ''json'' = []" by simp
  note a = t[OF this]
  have "[] = ''json'' \<or> [] = ([]::string)" by simp
  note b = t[OF this]
  from a b p h2 show ?thesis by simp
qed

text \<open>
  \<^bold>\<open>C5.\<close> The claim: every response text that parses as JSON and lacks a required field
  makes the single-recipe parser raise the missing-required-field error, and
  \<open>generate_recipe\<close> return \<open>success = False\<close>. The code meets it on JSON objects (lemma
  \<open>missing_required_field_fails\<close>) and misses the values that are no objects: the loop
  tests \<open>field not in recipe_data\<close>, which on a list asks for an equal element and on a
  string for a substring, though \<open>_parse_response\<close> is declared to return a \<open>Dict\<close> and the
  view calls \<open>.get\<close> on what it returns. The response
  \<open>["recipe_name", "ingredients", "instructions"]\<close> parses as JSON and has no field at
  all; the parser returns the list as the recipe and \<open>generate_recipe\<close> returns
  \<open>success = True\<close>.
\<close>

theorem list_of_field_names_passes_required_check:
  "json_loads (cleaned_text field_names_list) =
      Inr (JArr [JStr ''recipe_name'', JStr ''ingredients'', JStr ''instructions''])
   \<and> parse_response json_loads field_names_list =
      Inr (JArr [JStr ''recipe_name'', JStr ''ingredients'', JStr ''instructions''])
   \<and> fst (generate_recipe (replies field_names_list) json_loads [''egg''] None None) =
      Inr [(''success'', JBool True),
           (''recipe'', JArr [JStr ''recipe_name'', JStr ''ingredients'', JStr ''instructions''])]"
proof -
  have l: "json_loads (cleaned_text field_names_list) =
      Inr (JArr [JStr ''recipe_name'', JStr ''ingredients'', JStr ''instructions''])"
    by code_simp
  have p: "parse_response json_loads field_names_list =
      Inr (JArr [JStr ''recipe_name'', JStr ''ingredients'', JStr ''instructions''])"
    using l by (simp add: parse_response_def parse_response_body_def required_fields_def)
  have "fst (generate_recipe (replies field_names_list) json_loads [''egg''] None None) =
      Inr [(''success'', JBool True),
           (''recipe'', JArr [JStr ''recipe_name'', JStr ''ingredients'', JStr ''instructions''])]"
    using p by (simp add: generate_recipe_def replies_def Let_def)
  with l p show ?thesis by simp
qed

text \<open>
  \<^bold>\<open>C6.\<close> \<open>generate_recipe\<close> and \<open>generate_multiple_recipes\<close> always return and never
  raise. Whatever exception the generation call raises, and whatever exception leaves the
  parser (in the multi-recipe method: \<open>json.loads\<close> or the \<open>.get\<close> on the parsed value), the
  method returns the failure dictionary: \<open>success = False\<close>, \<open>error\<close> the text of the
  exception, \<open>message\<close> the method's fixed sentence.
\<close>

theorem exceptions_become_failure_results:
  "(\<exists>result. fst (generate_recipe generate_content loads ingredients cuisine_type dietary_restrictions) = Inr result)
   \<and> (\<exists>result. fst (generate_multiple_recipes generate_content loads ingredients count) = Inr result)
   \<and> (\<forall>e. generate_content (build_prompt ingredients cuisine_type dietary_restrictions) = Inl e \<longrightarrow>
          fst (generate_recipe generate_content loads ingredients cuisine_type dietary_restrictions) =
            Inr [(''success'', JBool False), (''error'', JStr (str_exn e)),
                 (''message'', JStr ''Failed to generate recipe'')])
   \<and> (\<forall>e response_text.
          generate_content (build_prompt ingredients cuisine_type dietary_restrictions) = Inr response_text
          \<and> parse_response loads response_text = Inl e \<longrightarrow>
          fst (generate_recipe generate_content loads ingredients cuisine_type dietary_restrictions) =
            Inr [(''success'', JBool False), (''error'', JStr (str_exn e)),
                 (''message'', JStr ''Failed to generate recipe'')])
   \<and> (\<forall>e. generate_content (suggestions_prompt ingredients count) = Inl e \<longrightarrow>
          fst (generate_multiple_recipes generate_content loads ingredients count) =
            Inr [(''success'', JBool False), (''error'', JStr (str_exn e)),
                 (''message'', JStr ''Failed to generate recipe suggestions'')])
   \<and> (\<forall>e response_text.
          generate_content (suggestions_prompt ingredients count) = Inr response_text
          \<and> loads (cleaned_text response_text) = Inl e \<longrightarrow>
          fst (generate_multiple_recipes generate_content loads ingredients count) =
            Inr [(''success'', JBool False), (''error'', JStr (str_exn e)),
                 (''message'', JStr ''Failed to generate recipe suggestions'')])
   \<and> (\<forall>e response_text recipes_data.
          generate_content (suggestions_prompt ingredients count) = Inr response_text
          \<and> loads (cleaned_text response_text) = Inr recipes_data
          \<and> py_get recipes_data ''recipes'' (JArr []) = Inl e \<longrightarrow>
          fst (generate_multiple_recipes generate_content loads ingredients count) =
            Inr [(''success'', JBool False), (''error'', JStr (str_exn e)),
                 (''message'', JStr ''Failed to generate recipe suggestions'')])"
  by (auto simp: generate_recipe_def generate_multiple_recipes_def failure_def Let_def
           split: sum.splits)

theorem exceptions_become_failure_results_witness:
  "fst (generate_recipe (raises (OtherError ''429 Quota exceeded'')) json_loads [''egg''] None None) =
     Inr [(''success'', JBool False), (''error'', JStr ''429 Quota exceeded''),
          (''message'', JStr ''Failed to generate recipe'')]
   \<and> fst (generate_multiple_recipes (raises (OtherError ''429 Quota exceeded'')) json_loads [''egg''] 3) =
     Inr [(''success'', JBool False), (''error'', JStr ''429 Quota exceeded''),
          (''message'', JStr ''Failed to generate recipe suggestions'')]
   \<and> parse_response json_loads ''[1, 2]'' =
        Inl (Exception ''Error parsing recipe: Missing required field: recipe_name'')
   \<and> fst (generate_recipe (replies ''[1, 2]'') json_loads [''egg''] None None) =
     Inr [(''success'', JBool False),
          (''error'', JStr ''Error parsing recipe: Missing required field: recipe_name''),
          (''message'', JStr ''Failed to generate recipe'')]
   \<and> json_loads (cleaned_text ''Sorry, no ideas.'') = Inl (JSONDecodeError ''Expecting value'')
   \<and> fst (generate_multiple_recipes (replies ''Sorry, no ideas.'') json_loads [''egg''] 3) =
     Inr [(''success'', JBool False), (''error'', JStr ''Expecting value''),
          (''message'', JStr ''Failed to generate recipe suggestions'')]
   \<and> json_loads (cleaned_text ''[1, 2]'') = Inr (JArr [JInt 1, JInt 2])
   \<and> fst (generate_multiple_recipes (replies ''[1, 2]'') json_loads [''egg''] 3) =
     Inr [(''success'', JBool False),
          (''error'', JStr (quoted ''list'' @ '' object has no attribute '' @ quoted ''get'')),
          (''message'', JStr ''Failed to generate recipe suggestions'')]"
proof -
  let ?q = "raises (OtherError ''429 Quota exceeded'')"
  have a: "?q (build_prompt [''egg''] None None) = Inl (OtherError ''429 Quota exceeded'')"
    and b: "?q (suggestions_prompt [''egg''] 3) = Inl (OtherError ''429 Quota exceeded'')"
    by (simp_all add: raises_def)
  have l: "json_loads (cleaned_text ''[1, 2]'') = Inr (JArr [JInt 1, JInt 2])"
    by code_simp
  have c: "parse_response json_loads ''[1, 2]'' =
        Inl (Exception ''Error parsing recipe: Missing required field: recipe_name'')"
    using l by (simp add: parse_response_def parse_response_body_def required_fields_def)
  have c': "replies ''[1, 2]'' (build_prompt [''egg''] None None) = Inr ''[1, 2]''"
    by (simp add: replies_def)
  have d: "json_loads (cleaned_text ''Sorry, no ideas.'') = Inl (JSONDecodeError ''Expecting value'')"
    by code_simp
  have d': "replies ''Sorry, no ideas.'' (suggestions_prompt [''egg''] 3) = Inr ''Sorry, no ideas.''"
    and l': "replies ''[1, 2]'' (suggestions_prompt [''egg''] 3) = Inr ''[1, 2]''"
    by (simp_all add: replies_def)
  have g: "py_get (JArr [JInt 1, JInt 2]) ''recipes'' (JArr []) =
             Inl (AttributeError (quoted ''list'' @ '' object has no attribute '' @ quoted ''get''))"
    by simp
  note t1 = exceptions_become_failure_results[where generate_content = ?q and loads = json_loads
      and ingredients = "[''egg'']" and cuisine_type = None and dietary_restrictions = None and count = 3]
  note t2 = exceptions_become_failure_results[where generate_content = "replies ''[1, 2]''"
      and loads = json_loads
      and ingredients = "[''egg'']" and cuisine_type = None and dietary_restrictions = None and count = 3]
  note t3 = exceptions_become_failure_results[where generate_content = "replies ''Sorry, no ideas.''"
      and loads = json_loads
      and ingredients = "[''egg'']" and cuisine_type = None and dietary_restrictions = None and count = 3]
  have r1: "fst (generate_recipe ?q json_loads [''egg''] None None) =
     Inr [(''success'', JBool False), (''error'', JStr ''429 Quota exceeded''),
          (''message'', JStr ''Failed to generate recipe'')]"
    using t1 a by simp
  have r2: "fst (generate_multiple_recipes ?q json_loads [''egg''] 3) =
     Inr [(''success'', JBool False), (''error'', JStr ''429 Quota exceeded''),
          (''message'', JStr ''Failed to generate recipe suggestions'')]"
    using t1 b by simp
  have r3: "fst (generate_recipe (replies ''[1, 2]'') json_loads [''egg''] None None) =
     Inr [(''success'', JBool False),
          (''error'', JStr ''Error parsing recipe: Missing required field: recipe_name''),
          (''message'', JStr ''Failed to generate recipe'')]"
    using t2 c c' by simp
  have r4: "fst (generate_multiple_recipes (replies ''Sorry, no ideas.'') json_loads [''egg''] 3) =
     Inr [(''success'', JBool False), (''error'', JStr ''Expecting value''),
          (''message'', JStr ''Failed to generate recipe suggestions'')]"
    using t3 d d' by simp
  have r5: "fst (generate_multiple_recipes (replies ''[1, 2]'') json_loads [''egg''] 3) =
     Inr [(''success'', JBool False),
          (''error'', JStr (quoted ''list'' @ '' object has no attribute '' @ quoted ''get'')),
          (''message'', JStr ''Failed to generate recipe suggestions'')]"
    using t2 l l' g by simp
  from r1 r2 c r3 d r4 l r5 show ?thesis by blast
qed

text \<open>
  \<^bold>\<open>C7.\<close> For a request whose \<open>ingredients\<close> is a list of strings: the field is accepted
  exactly when the length of the list is in \<open>[1, MAX]\<close> (\<open>MAX\<close> is 20 when the environment
  does not set it); otherwise both views answer HTTP 400 with the body of a validation
  error and a non-empty list of details, having sent nothing to the generation call. For
  \<open>/suggest_recipes\<close>, an absent \<open>count\<close> is 3, an integer \<open>count\<close> is accepted exactly when it
  is in \<open>[1, 5]\<close>, and otherwise the view answers HTTP 400 in the same way, again before any
  generation call. (The conversion of the library is assumed to read a JSON integer as
  itself.)
\<close>

theorem request_validation_bounds:
  assumes "map_of data ''ingredients'' = Some (JArr (map JStr xs))"
    and "\<forall>n. lax_int (JInt n) = Some n"
  shows "MAX_INGREDIENTS None = 20
     \<and> ((\<exists>accepted. validate_ingredients max_length data = Inr accepted)
           \<longleftrightarrow> 1 \<le> length xs \<and> int (length xs) \<le> max_length)
     \<and> (1 \<le> length xs \<and> int (length xs) \<le> max_length \<longrightarrow>
           validate_ingredients max_length data = Inr xs)
     \<and> (\<not> (1 \<le> length xs \<and> int (length xs) \<le> max_length) \<longrightarrow>
           (\<exists>details. details \<noteq> []
              \<and> app_generate_recipe (Inr (JObj data)) generate_content loads max_length =
                  (\<lparr>status = 400,
                    body = JObj [(''success'', JBool False), (''error'', JStr ''Validation error''),
                                 (''details'', JArr details)]\<rparr>, []))
         \<and> (\<exists>details. details \<noteq> []
              \<and> app_suggest_recipes (Inr (JObj data)) generate_content loads max_length lax_int =
                  (\<lparr>status = 400,
                    body = JObj [(''success'', JBool False), (''error'', JStr ''Validation error''),
                                 (''details'', JArr details)]\<rparr>, [])))
     \<and> (map_of data ''count'' = None \<longrightarrow> validate_count lax_int data = Inr 3)
     \<and> (\<forall>n. map_of data ''count'' = Some (JInt n) \<longrightarrow>
           ((\<exists>accepted. validate_count lax_int data = Inr accepted) \<longleftrightarrow> 1 \<le> n \<and> n \<le> 5)
         \<and> (1 \<le> n \<and> n \<le> 5 \<longrightarrow> validate_count lax_int data = Inr n)
         \<and> (\<not> (1 \<le> n \<and> n \<le> 5) \<longrightarrow>
              (\<exists>details. details \<noteq> []
                \<and> app_suggest_recipes (Inr (JObj data)) generate_content loads max_length lax_int =
                    (\<lparr>status = 400,
                      body = JObj [(''success'', JBool False), (''error'', JStr ''Validation error''),
                                   (''details'', JArr details)]\<rparr>, []))))"
proof -
  have ne: "data \<noteq> []" using assms(1) by auto
  have vi: "validate_ingredients max_length data =
           (if length xs < 1 then Inl [([JStr ''ingredients''], ''too_short'')]
            else if int (length xs) > max_length then Inl [([JStr ''ingredients''], ''too_long'')]
            else Inr xs)"
    using assms(1) by (rule validate_ingredients_strings)
  have a: "MAX_INGREDIENTS None = 20" by (simp add: MAX_INGREDIENTS_def)
  have b: "(\<exists>accepted. validate_ingredients max_length data = Inr accepted)
           \<longleftrightarrow> 1 \<le> length xs \<and> int (length xs) \<le> max_length"
    using vi by (auto simp: Suc_le_eq)
  have c: "1 \<le> length xs \<and> int (length xs) \<le> max_length \<longrightarrow>
           validate_ingredients max_length data = Inr xs"
    using vi by (auto simp: Suc_le_eq)
  have d: "(\<exists>details. details \<noteq> []
              \<and> app_generate_recipe (Inr (JObj data)) generate_content loads max_length =
                  (\<lparr>status = 400,
                    body = JObj [(''success'', JBool False), (''error'', JStr ''Validation error''),
                                 (''details'', JArr details)]\<rparr>, []))
         \<and> (\<exists>details. details \<noteq> []
              \<and> app_suggest_recipes (Inr (JObj data)) generate_content loads max_length lax_int =
                  (\<lparr>status = 400,
                    body = JObj [(''success'', JBool False), (''error'', JStr ''Validation error''),
                                 (''details'', JArr details)]\<rparr>, []))"
    if out: "\<not> (1 \<le> length xs \<and> int (length xs) \<le> max_length)"
  proof -
    from out vi obtain e where e: "validate_ingredients max_length data = Inl [e]"
      by (auto simp: Suc_le_eq split: if_splits)
    from RecipeRequest_validate_bad_ingredients[OF e] obtain es1 where
      "RecipeRequest_validate max_length data = Inl ([e] @ es1)" by blast
    from app_generate_recipe_invalid[OF ne this]
    have g: "app_generate_recipe (Inr (JObj data)) generate_content loads max_length =
               (validation_error_response ([e] @ es1), [])" .
    from MultipleRecipesRequest_validate_bad_ingredients[OF e] obtain es2 where
      "MultipleRecipesRequest_validate max_length lax_int data = Inl ([e] @ es2)" by blast
    from app_suggest_recipes_invalid[OF ne this]
    have s: "app_suggest_recipes (Inr (JObj data)) generate_content loads max_length lax_int =
               (validation_error_response ([e] @ es2), [])" .
    show ?thesis
      using g s by (simp add: validation_error_response_def)
  qed
  have e: "map_of data ''count'' = None \<longrightarrow> validate_count lax_int data = Inr 3"
    by (simp add: validate_count_def)
  have f: "((\<exists>accepted. validate_count lax_int data = Inr accepted) \<longleftrightarrow> 1 \<le> n \<and> n \<le> 5)
         \<and> (1 \<le> n \<and> n \<le> 5 \<longrightarrow> validate_count lax_int data = Inr n)
         \<and> (\<not> (1 \<le> n \<and> n \<le> 5) \<longrightarrow>
              (\<exists>details. details \<noteq> []
                \<and> app_suggest_recipes (Inr (JObj data)) generate_content loads max_length lax_int =
                    (\<lparr>status = 400,
                      body = JObj [(''success'', JBool False), (''error'', JStr ''Validation error''),
                                   (''details'', JArr details)]\<rparr>, [])))"
    if cnt: "map_of data ''count'' = Some (JInt n)" for n
  proof -
    have vc: "validate_count lax_int data =
                (if n < 1 then Inl [([JStr ''count''], ''greater_than_equal'')]
                 else if n > 5 then Inl [([JStr ''count''], ''less_than_equal'')]
                 else Inr n)"
      using cnt assms(2) by (simp add: validate_count_def)
    have "\<exists>details. details \<noteq> []
                \<and> app_suggest_recipes (Inr (JObj data)) generate_content loads max_length lax_int =
                    (\<lparr>status = 400,
                      body = JObj [(''success'', JBool False), (''error'', JStr ''Validation error''),
                                   (''details'', JArr details)]\<rparr>, [])"
      if out: "\<not> (1 \<le> n \<and> n \<le> 5)"
    proof -
      from out vc obtain e where e: "validate_count lax_int data = Inl [e]"
        by (auto split: if_splits)
      from MultipleRecipesRequest_validate_bad_count[OF e] obtain es where
        "MultipleRecipesRequest_validate max_length lax_int data = Inl (es @ [e])" by blast
      from app_suggest_recipes_invalid[OF ne this]
      show ?thesis by (simp add: validation_error_response_def)
    qed
    then show ?thesis using vc by auto
  qed
  from a b c d e f show ?thesis by blast
qed

theorem request_validation_bounds_witness:
  "map_of egg_count_7 ''ingredients'' = Some (JArr (map JStr [''egg'']))
   \<and> map_of egg_count_7 ''count'' = Some (JInt 7)
   \<and> (\<forall>n. json_int (JInt n) = Some n)
   \<and> MAX_INGREDIENTS None = 20
   \<and> validate_ingredients (MAX_INGREDIENTS None) egg_count_7 = Inr [''egg'']
   \<and> status (fst (app_suggest_recipes (Inr (JObj egg_count_7)) (replies ''{}'') json_loads
                    (MAX_INGREDIENTS None) json_int)) = 400
   \<and> snd (app_suggest_recipes (Inr (JObj egg_count_7)) (replies ''{}'') json_loads
             (MAX_INGREDIENTS None) json_int) = []
   \<and> status (fst (app_generate_recipe (Inr (JObj no_ingredients)) (replies ''{}'') json_loads
                    (MAX_INGREDIENTS None))) = 400
   \<and> snd (app_generate_recipe (Inr (JObj no_ingredients)) (replies ''{}'') json_loads
             (MAX_INGREDIENTS None)) = []
   \<and> status (fst (app_generate_recipe (Inr (JObj too_many_ingredients)) (replies ''{}'') json_loads
                    (MAX_INGREDIENTS None))) = 400
   \<and> snd (app_generate_recipe (Inr (JObj too_many_ingredients)) (replies ''{}'') json_loads
             (MAX_INGREDIENTS None)) = []"
proof -
  have h1: "map_of egg_count_7 ''ingredients'' = Some (JArr (map JStr [''egg'']))"
    and h1': "map_of egg_count_7 ''count'' = Some (JInt 7)"
    by (simp_all add: egg_count_7_def)
  have h2: "map_of no_ingredients ''ingredients'' = Some (JArr (map JStr []))"
    by (simp add: no_ingredients_def)
  have h3: "map_of too_many_ingredients ''ingredients'' = Some (JArr (map JStr (replicate 21 ''egg'')))"
    by (simp add: too_many_ingredients_def)
  have m: "MAX_INGREDIENTS None = 20" by (simp add: MAX_INGREDIENTS_def)
  note a = request_validation_bounds[where lax_int = json_int and max_length = "MAX_INGREDIENTS None"
      and generate_content = "replies ''{}''" and loads = json_loads, OF h1 json_int_reads]
  note b = request_validation_bounds[where lax_int = json_int and max_length = "MAX_INGREDIENTS None"
      and generate_content = "replies ''{}''" and loads = json_loads, OF h2 json_int_reads]
  note c = request_validation_bounds[where lax_int = json_int and max_length = "MAX_INGREDIENTS None"
      and generate_content = "replies ''{}''" and loads = json_loads, OF h3 json_int_reads]
  have a1: "validate_ingredients (MAX_INGREDIENTS None) egg_count_7 = Inr [''egg'']"
    using a m by simp
  have a2: "status (fst (app_suggest_recipes (Inr (JObj egg_count_7)) (replies ''{}'') json_loads
                    (MAX_INGREDIENTS None) json_int)) = 400
     \<and> snd (app_suggest_recipes (Inr (JObj egg_count_7)) (replies ''{}'') json_loads
             (MAX_INGREDIENTS None) json_int) = []"
    using a h1' by auto
  have b1: "status (fst (app_generate_recipe (Inr (JObj no_ingredients)) (replies ''{}'') json_loads
                    (MAX_INGREDIENTS None))) = 400
     \<and> snd (app_generate_recipe (Inr (JObj no_ingredients)) (replies ''{}'') json_loads
             (MAX_INGREDIENTS None)) = []"
    using b by auto
  have c1: "status (fst (app_generate_recipe (Inr (JObj too_many_ingredients)) (replies ''{}'') json_loads
                    (MAX_INGREDIENTS None))) = 400
     \<and> snd (app_generate_recipe (Inr (JObj too_many_ingredients)) (replies ''{}'') json_loads
             (MAX_INGREDIENTS None)) = []"
    using c m by auto
  from h1 h1' json_int_reads m a1 a2 b1 c1 show ?thesis by blast
qed

text \<open>
  \<^bold>\<open>C8.\<close> The single-recipe prompt is the opening sentence with the ingredients joined by
  comma and space, the format text, then the style-preference clause naming
  \<open>cuisine_type\<close> exactly when \<open>cuisine_type\<close> is there and not empty, then the clause that
  joins the dietary restrictions by comma and space exactly when the list is there and not
  empty, and last, always, the instruction to provide only the JSON response, with no
  additional text or markdown formatting.
\<close>

theorem prompt_clauses:
  "build_prompt ingredients cuisine_type dietary_restrictions =
     ''You are a professional chef. Create a detailed recipe using the following ingredients: ''
     @ join '', '' ingredients @ recipe_format_text
     @ (case cuisine_type of
          None \<Rightarrow> []
        | Some c \<Rightarrow> if c = [] then [] else ''\<newline>- Prefer '' @ c @ '' cuisine style'')
     @ (case dietary_restrictions of
          None \<Rightarrow> []
        | Some ds \<Rightarrow>
            if ds = [] then []
            else ''\<newline>- Follow these dietary restrictions: '' @ join '', '' ds)
     @ ''\<newline>\<newline>Provide ONLY the JSON response, no additional text or markdown formatting.''"
  by (simp add: build_prompt_def Let_def split: option.splits)

theorem prompt_clauses_witness:
  "build_prompt [''egg'', ''rice''] (Some ''Thai'') (Some [''vegan'', ''nut-free'']) =
     ''You are a professional chef. Create a detailed recipe using the following ingredients: egg, rice''
     @ recipe_format_text
     @ ''\<newline>- Prefer Thai cuisine style''
     @ ''\<newline>- Follow these dietary restrictions: vegan, nut-free''
     @ ''\<newline>\<newline>Provide ONLY the JSON response, no additional text or markdown formatting.''
   \<and> build_prompt [''egg'', ''rice''] (Some []) (Some []) =
     ''You are a professional chef. Create a detailed recipe using the following ingredients: egg, rice''
     @ recipe_format_text
     @ ''\<newline>\<newline>Provide ONLY the JSON response, no additional text or markdown formatting.''
   \<and> build_prompt [''egg'', ''rice''] None None =
     ''You are a professional chef. Create a detailed recipe using the following ingredients: egg, rice''
     @ recipe_format_text
     @ ''\<newline>\<newline>Provide ONLY the JSON response, no additional text or markdown formatting.''"
  using prompt_clauses[of "[''egg'', ''rice'']" "Some ''Thai''" "Some [''vegan'', ''nut-free'']"]
    prompt_clauses[of "[''egg'', ''rice'']" "Some []" "Some []"]
    prompt_clauses[of "[''egg'', ''rice'']" None None]
  by simp

text \<open>
  \<^bold>\<open>C9.\<close> The claim: a POST to \<open>/generate_recipe\<close> with no request body is answered with
  HTTP 400 and the body \<open>{success: false, error: "No data provided"}\<close>. The view has that
  answer for data that is false (lemma \<open>no_data_provided\<close>), but \<open>request.get_json()\<close> runs
  inside the \<open>try\<close> of the view and raises for a request without a body; the handler of
  \<open>Exception\<close> turns the exception into HTTP 500 with the error "Internal server error"
  (lemma \<open>get_json_raises_internal_error\<close>, for every exception).
\<close>

theorem post_without_body_internal_error:
  "app_generate_recipe get_json_without_body (replies toast_recipe_text) json_loads
       (MAX_INGREDIENTS None) =
     (\<lparr>status = 500,
       body = JObj [(''success'', JBool False), (''error'', JStr ''Internal server error''),
                    (''message'',
                     JStr (''415 Unsupported Media Type: Did not attempt to load JSON data because the request Content-Type was not ''
                             @ quoted ''application/json'' @ ''.''))]\<rparr>,
      [])"
  by (simp add: app_generate_recipe_def generate_recipe_view_body_def internal_error_response_def
        get_json_without_body_def unsupported_media_type_def)

text \<open>
  \<^bold>\<open>C10.\<close> Validation looks at the number of ingredient strings only, not at the strings:
  every list of strings whose length is in \<open>[1, MAX]\<close> is accepted as it is, empty strings
  included, and the prompt that the view sends is built from that very list.
\<close>

theorem empty_ingredient_strings_accepted:
  assumes "map_of data ''ingredients'' = Some (JArr (map JStr xs))"
    and "1 \<le> length xs" and "int (length xs) \<le> max_length"
    and "validate_cuisine_type data = Inr c"
    and "validate_dietary_restrictions data = Inr d"
  shows "RecipeRequest_validate max_length data =
           Inr \<lparr>rr_ingredients = xs, rr_cuisine_type = c, rr_dietary_restrictions = d\<rparr>
       \<and> snd (app_generate_recipe (Inr (JObj data)) generate_content loads max_length) =
           [build_prompt xs c d]"
proof -
  have ne: "data \<noteq> []" using assms(1) by auto
  have "validate_ingredients max_length data = Inr xs"
    using validate_ingredients_strings[OF assms(1), of max_length] assms(2,3)
    by (auto simp: Suc_le_eq)
  then have v: "RecipeRequest_validate max_length data =
           Inr \<lparr>rr_ingredients = xs, rr_cuisine_type = c, rr_dietary_restrictions = d\<rparr>"
    using assms(4,5) by (simp add: RecipeRequest_validate_def)
  from app_generate_recipe_valid_calls[OF ne v] v show ?thesis by simp
qed

theorem empty_ingredient_strings_accepted_witness:
  "map_of egg_blank_rice ''ingredients'' = Some (JArr (map JStr [''egg'', [], ''rice'']))
   \<and> [] \<in> set [''egg'', [], ''rice'']
   \<and> RecipeRequest_validate (MAX_INGREDIENTS None) egg_blank_rice =
        Inr \<lparr>rr_ingredients = [''egg'', [], ''rice''], rr_cuisine_type = None,
             rr_dietary_restrictions = Some []\<rparr>
   \<and> snd (app_generate_recipe (Inr (JObj egg_blank_rice)) (replies ''{}'') json_loads
             (MAX_INGREDIENTS None)) =
        [build_prompt [''egg'', [], ''rice''] None (Some [])]
   \<and> join '', '' [''egg'', [], ''rice''] = ''egg, , rice''"
proof -
  have h1: "map_of egg_blank_rice ''ingredients'' = Some (JArr (map JStr [''egg'', [], ''rice'']))"
    by (simp add: egg_blank_rice_def)
  have h2: "1 \<le> length [''egg'', [], ''rice'']" by simp
  have h3: "int (length [''egg'', [], ''rice'']) \<le> MAX_INGREDIENTS None"
    by (simp add: MAX_INGREDIENTS_def)
  have h4: "validate_cuisine_type egg_blank_rice = Inr None"
    by (simp add: validate_cuisine_type_def egg_blank_rice_def)
  have h5: "validate_dietary_restrictions egg_blank_rice = Inr (Some [])"
    by (simp add: validate_dietary_restrictions_def egg_blank_rice_def)
  show ?thesis
    using h1 empty_ingredient_strings_accepted[where generate_content = "replies ''{}''"
        and loads = json_loads, OF h1 h2 h3 h4 h5]
    by simp
qed

end
